theory Spec2Isabelle
  imports Main
begin

section \<open>Header collections\<close>

text \<open>
  Go's \<^verbatim>\<open>http.Header\<close> is \<^verbatim>\<open>map[string][]string\<close>: a finite map from a
  header name to the ordered list of its values.  Strings are byte sequences.
\<close>

type_synonym header = "string \<rightharpoonup> string list"

definition byte :: "char \<Rightarrow> nat" where
  "byte c = of_char c"

definition isLowerASCII :: "char \<Rightarrow> bool" where
  "isLowerASCII c = (97 \<le> byte c \<and> byte c \<le> 122)"

definition isUpperASCII :: "char \<Rightarrow> bool" where
  "isUpperASCII c = (65 \<le> byte c \<and> byte c \<le> 90)"

definition isDigitASCII :: "char \<Rightarrow> bool" where
  "isDigitASCII c = (48 \<le> byte c \<and> byte c \<le> 57)"

text \<open>
  \<^verbatim>\<open>validHeaderFieldByte\<close> of \<^verbatim>\<open>net/textproto\<close>: the token characters of RFC 7230,
  that is letters, digits and \<^verbatim>\<open>! # $ % & ' * + - . ^ _ ` | ~\<close>.
\<close>

definition validHeaderFieldByte :: "char \<Rightarrow> bool" where
  "validHeaderFieldByte c =
     (isLowerASCII c \<or> isUpperASCII c \<or> isDigitASCII c \<or>
      byte c \<in> set [33, 35, 36, 37, 38, 39, 42, 43, 45, 46, 94, 95, 96, 124, 126])"

text \<open>
  The canonicalising loop of \<^verbatim>\<open>canonicalMIMEHeaderKey\<close>: the first letter and every
  letter after a dash are made upper case (\<^verbatim>\<open>c -= 'a' - 'A'\<close>), every other letter
  lower case; \<open>upper\<close> is the loop's flag.
\<close>

definition canonByte :: "bool \<Rightarrow> char \<Rightarrow> char" where
  "canonByte upper c =
     (if upper \<and> isLowerASCII c then char_of (byte c - 32)
      else if \<not> upper \<and> isUpperASCII c then char_of (byte c + 32)
      else c)"

fun canonLoop :: "bool \<Rightarrow> string \<Rightarrow> string" where
  "canonLoop upper [] = []"
| "canonLoop upper (c # cs) =
     (let c' = canonByte upper c in c' # canonLoop (c' = CHR ''-'') cs)"

text \<open>
  \<^verbatim>\<open>textproto.CanonicalMIMEHeaderKey\<close>: a key with a byte that is not a token character
  is returned unchanged, every other key is canonicalised.
\<close>

definition CanonicalMIMEHeaderKey :: "string \<Rightarrow> string" where
  "CanonicalMIMEHeaderKey s = (if list_all validHeaderFieldByte s then canonLoop True s else s)"

text \<open>\<^verbatim>\<open>Header.Set\<close> and \<^verbatim>\<open>Header.Del\<close> canonicalise the key they are given.\<close>

definition Header_Set :: "header \<Rightarrow> string \<Rightarrow> string \<Rightarrow> header" where
  "Header_Set h key v = h(CanonicalMIMEHeaderKey key \<mapsto> [v])"

definition Header_Del :: "header \<Rightarrow> string \<Rightarrow> header" where
  "Header_Del h key = h(CanonicalMIMEHeaderKey key := None)"

subsection \<open>The Header Hygiene Filter\<close>

text \<open>The eight keys of the loop in \<^verbatim>\<open>stripHopHeaders\<close>, as the source spells them.\<close>

definition hopHeaders :: "string list" where
  "hopHeaders =
     [''Connection'', ''Keep-Alive'', ''Proxy-Authenticate'', ''Proxy-Authorization'',
      ''Te'', ''Trailer'', ''Transfer-Encoding'', ''Upgrade'']"

definition stripHopHeaders :: "header \<Rightarrow> header" where
  "stripHopHeaders header = fold (\<lambda>h hdr. Header_Del hdr h) hopHeaders header"

text \<open>
  The names as the specification lists them (it writes \<open>TE\<close>), and what it means for a
  stored name to be one of them under some letter-casing: the two are equal after ASCII
  lower-casing.
\<close>

definition namedHopByHop :: "string list" where
  "namedHopByHop =
     [''Connection'', ''Keep-Alive'', ''Proxy-Authenticate'', ''Proxy-Authorization'',
      ''TE'', ''Trailer'', ''Transfer-Encoding'', ''Upgrade'']"

definition toLowerASCII :: "char \<Rightarrow> char" where
  "toLowerASCII c = (if isUpperASCII c then char_of (byte c + 32) else c)"

definition equalFold :: "string \<Rightarrow> string \<Rightarrow> bool" where
  "equalFold s t = (map toLowerASCII s = map toLowerASCII t)"

definition isHopByHopName :: "string \<Rightarrow> bool" where
  "isHopByHopName k = list_ex (equalFold k) namedHopByHop"

text \<open>
  The form in which Go's HTTP parsers, \<^verbatim>\<open>Header.Set\<close> and \<^verbatim>\<open>Header.Add\<close> store names:
  every key is its own canonical form.
\<close>

definition canonicalKeys :: "header \<Rightarrow> bool" where
  "canonicalKeys h = (\<forall>k \<in> dom h. CanonicalMIMEHeaderKey k = k)"

section \<open>The request rewrite\<close>

text \<open>
  The fields of \<^verbatim>\<open>url.URL\<close> and \<^verbatim>\<open>http.Request\<close> that the rewrite reads or writes,
  and the method, body and remote address the claims speak about.  \<open>ReqHost\<close> is
  \<^verbatim>\<open>Request.Host\<close>; the body is the byte sequence the body stream yields.
\<close>

record url =
  Scheme :: string
  Host :: string
  Path :: string
  RawPath :: string
  RawQuery :: string

record request =
  Method :: string
  URL :: url
  ReqHost :: string
  Header :: header
  Body :: string
  RemoteAddr :: string

definition HasPrefix :: "string \<Rightarrow> string \<Rightarrow> bool" where
  "HasPrefix s p = (length p \<le> length s \<and> take (length p) s = p)"

definition HasSuffix :: "string \<Rightarrow> string \<Rightarrow> bool" where
  "HasSuffix s p = (length p \<le> length s \<and> drop (length s - length p) s = p)"

text \<open>
  \<^verbatim>\<open>httputil.NewSingleHostReverseProxy(target)\<close> installs a director that calls
  \<^verbatim>\<open>rewriteRequestURL(req, target)\<close>.  The three functions below follow
  \<^verbatim>\<open>net/http/httputil/reverseproxy.go\<close> (Go 1.20 and later).  In \<open>singleJoiningSlash\<close>
  the slice \<^verbatim>\<open>b[1:]\<close> is taken only when \<open>b\<close> starts with a slash.
\<close>

definition singleJoiningSlash :: "string \<Rightarrow> string \<Rightarrow> string" where
  "singleJoiningSlash a b =
     (let aslash = HasSuffix a ''/''; bslash = HasPrefix b ''/'' in
      if aslash \<and> bslash then a @ drop 1 b
      else if \<not> aslash \<and> \<not> bslash then a @ ''/'' @ b
      else a @ b)"

text \<open>
  \<^verbatim>\<open>joinURLPath\<close> returns the joined path and raw path.  \<open>esc\<close> stands for the method
  \<^verbatim>\<open>(*URL).EscapedPath\<close>, which is not modelled.  Where both raw paths are empty it is not
  called.  In the other branch Go decides on the escaped paths and slices \<^verbatim>\<open>b.Path[1:]\<close>,
  which panics on an empty \<^verbatim>\<open>b.Path\<close>: the result \<open>None\<close>.
\<close>

definition joinURLPath :: "(url \<Rightarrow> string) \<Rightarrow> url \<Rightarrow> url \<Rightarrow> (string \<times> string) option" where
  "joinURLPath esc a b =
     (if RawPath a = [] \<and> RawPath b = [] then Some (singleJoiningSlash (Path a) (Path b), [])
      else
        let apath = esc a; bpath = esc b;
            aslash = HasSuffix apath ''/''; bslash = HasPrefix bpath ''/'' in
        if aslash \<and> bslash then
          (if Path b = [] then None else Some (Path a @ drop 1 (Path b), apath @ drop 1 bpath))
        else if \<not> aslash \<and> \<not> bslash then
          Some (Path a @ ''/'' @ Path b, apath @ ''/'' @ bpath)
        else Some (Path a @ Path b, apath @ bpath))"

definition rewriteRequestURL :: "(url \<Rightarrow> string) \<Rightarrow> request \<Rightarrow> url \<Rightarrow> request option" where
  "rewriteRequestURL esc req target =
     (let targetQuery = RawQuery target;
          u = (URL req)\<lparr>Scheme := Scheme target, Host := Host target\<rparr> in
      case joinURLPath esc target u of
        None \<Rightarrow> None
      | Some (p, rp) \<Rightarrow>
          let u = u\<lparr>Path := p, RawPath := rp\<rparr>;
              u = (if targetQuery = [] \<or> RawQuery u = []
                   then u\<lparr>RawQuery := targetQuery @ RawQuery u\<rparr>
                   else u\<lparr>RawQuery := targetQuery @ ''&'' @ RawQuery u\<rparr>)
          in Some (req\<lparr>URL := u\<rparr>))"

text \<open>
  The director that \<^verbatim>\<open>newMistProxy\<close> installs: the original director, then the Host,
  the two \<^verbatim>\<open>Header.Set\<close> calls (\<^verbatim>\<open>fmt.Sprintf("Token %s", token)\<close> is the concatenation)
  and the Header Hygiene Filter.
\<close>

definition director :: "(url \<Rightarrow> string) \<Rightarrow> url \<Rightarrow> string \<Rightarrow> request \<Rightarrow> request option" where
  "director esc target token req =
     (case rewriteRequestURL esc req target of
        None \<Rightarrow> None
      | Some req \<Rightarrow>
          let req = req\<lparr>ReqHost := Host target\<rparr>;
              req = req\<lparr>Header := Header_Set (Header req) ''Authorization'' (''Token '' @ token)\<rparr>;
              req = req\<lparr>Header := Header_Set (Header req) ''Accept'' ''application/json''\<rparr>;
              req = req\<lparr>Header := stripHopHeaders (Header req)\<rparr>
          in Some req)"

text \<open>Sample values: an upstream with a base path, one without, and an inbound request.\<close>

definition baseTarget :: url where
  "baseTarget = \<lparr>Scheme = ''https'', Host = ''api.mist.com'', Path = ''/api/v1'', RawPath = [],
     RawQuery = []\<rparr>"

definition originTarget :: url where
  "originTarget = \<lparr>Scheme = ''https'', Host = ''api.mist.com'', Path = [], RawPath = [],
     RawQuery = []\<rparr>"

definition sampleRequest :: request where
  "sampleRequest = \<lparr>Method = ''POST'',
     URL = \<lparr>Scheme = [], Host = [], Path = ''/sites'', RawPath = [], RawQuery = ''limit=5''\<rparr>,
     ReqHost = ''localhost:8080'',
     Header = [''Authorization'' \<mapsto> [''Bearer client''], ''Connection'' \<mapsto> [''close''],
               ''X-Trace'' \<mapsto> [''1'', ''2'']],
     Body = ''{}'', RemoteAddr = ''192.0.2.7:51234''\<rparr>"

section \<open>The remote address of the access log\<close>

text \<open>
  \<^verbatim>\<open>net.SplitHostPort\<close>, following \<^verbatim>\<open>net/ipsock.go\<close>.  \<open>IndexByte\<close> and \<open>LastIndexByte\<close>
  return \<open>None\<close> where Go returns \<open>-1\<close>.  The index \<^verbatim>\<open>hostport[0]\<close> is read only after a
  colon was found, so the string is not empty there, and \<^verbatim>\<open>hostport[end+1]\<close> only when
  \<open>end + 1\<close> is less than the length.  \<open>splitTail\<close> is the part of the function after the
  host has been cut out: the two checks for stray brackets and the port.
\<close>

fun IndexByte :: "string \<Rightarrow> char \<Rightarrow> nat option" where
  "IndexByte [] c = None"
| "IndexByte (x # xs) c = (if x = c then Some 0 else map_option Suc (IndexByte xs c))"

definition LastIndexByte :: "string \<Rightarrow> char \<Rightarrow> nat option" where
  "LastIndexByte s c = map_option (\<lambda>i. length s - 1 - i) (IndexByte (rev s) c)"

datatype addrError = AddrError string string

definition splitTail :: "string \<Rightarrow> string \<Rightarrow> nat \<Rightarrow> nat \<Rightarrow> nat \<Rightarrow> addrError + string \<times> string" where
  "splitTail hostport host j k i =
     (if IndexByte (drop j hostport) (CHR ''['') \<noteq> None
        then Inl (AddrError ''unexpected '[' in address'' hostport)
      else if IndexByte (drop k hostport) (CHR '']'') \<noteq> None
        then Inl (AddrError ''unexpected ']' in address'' hostport)
      else Inr (host, drop (i + 1) hostport))"

definition SplitHostPort :: "string \<Rightarrow> addrError + string \<times> string" where
  "SplitHostPort hostport =
     (case LastIndexByte hostport (CHR '':'') of
        None \<Rightarrow> Inl (AddrError ''missing port in address'' hostport)
      | Some i \<Rightarrow>
          if hd hostport = CHR ''['' then
            (case IndexByte hostport (CHR '']'') of
               None \<Rightarrow> Inl (AddrError ''missing ']' in address'' hostport)
             | Some end \<Rightarrow>
                 if end + 1 = length hostport
                   then Inl (AddrError ''missing port in address'' hostport)
                 else if end + 1 = i
                   then splitTail hostport (take (end - 1) (drop 1 hostport)) 1 (end + 1) i
                 else if hostport ! (end + 1) = CHR '':''
                   then Inl (AddrError ''too many colons in address'' hostport)
                 else Inl (AddrError ''missing port in address'' hostport))
          else
            (let host = take i hostport in
             if IndexByte host (CHR '':'') \<noteq> None
               then Inl (AddrError ''too many colons in address'' hostport)
             else splitTail hostport host 0 0 i))"

text \<open>
  The first lines of the closure in \<^verbatim>\<open>loggingMiddleware\<close>: the host that
  \<^verbatim>\<open>SplitHostPort\<close> returns, and the raw address when it returns an error.
\<close>

definition remoteIP :: "string \<Rightarrow> string" where
  "remoteIP addr = (case SplitHostPort addr of Inl err \<Rightarrow> addr | Inr (host, port) \<Rightarrow> host)"

text \<open>
  The two shapes of a \<open>host:port\<close> address: a host without colon or bracket followed by
  a colon and the port, and a host in square brackets followed by a colon and the port.
\<close>

definition plainForm :: "string \<Rightarrow> string \<Rightarrow> string \<Rightarrow> bool" where
  "plainForm addr host port =
     (addr = host @ '':'' @ port \<and>
      CHR '':'' \<notin> set host \<and> CHR ''['' \<notin> set host \<and> CHR '']'' \<notin> set host \<and>
      CHR '':'' \<notin> set port \<and> CHR ''['' \<notin> set port \<and> CHR '']'' \<notin> set port)"

definition bracketForm :: "string \<Rightarrow> string \<Rightarrow> string \<Rightarrow> bool" where
  "bracketForm addr host port =
     (addr = ''['' @ host @ '']:'' @ port \<and> CHR ''['' \<notin> set host \<and> CHR '']'' \<notin> set host \<and>
      CHR '':'' \<notin> set port \<and> CHR ''['' \<notin> set port \<and> CHR '']'' \<notin> set port)"

section \<open>Configuration from the environment\<close>

text \<open>
  \<^verbatim>\<open>strings.TrimSpace\<close> removes leading and trailing white space as \<^verbatim>\<open>unicode.IsSpace\<close>
  defines it.  On the bytes of a string these are the UTF-8 encodings of the code points
  U+0009 to U+000D, U+0020, U+0085, U+00A0, U+1680, U+2000 to U+200A, U+2028, U+2029,
  U+202F, U+205F and U+3000.  A byte sequence that is not one of these encodings decodes
  to a rune that is not a space and stops the trimming.
\<close>

definition spaceEncodings :: "string list" where
  "spaceEncodings =
     [[CHR 0x09],
      [CHR 0x0A],
      [CHR 0x0B],
      [CHR 0x0C],
      [CHR 0x0D],
      [CHR 0x20],
      [CHR 0xC2, CHR 0x85],
      [CHR 0xC2, CHR 0xA0],
      [CHR 0xE1, CHR 0x9A, CHR 0x80],
      [CHR 0xE2, CHR 0x80, CHR 0x80],
      [CHR 0xE2, CHR 0x80, CHR 0x81],
      [CHR 0xE2, CHR 0x80, CHR 0x82],
      [CHR 0xE2, CHR 0x80, CHR 0x83],
      [CHR 0xE2, CHR 0x80, CHR 0x84],
      [CHR 0xE2, CHR 0x80, CHR 0x85],
      [CHR 0xE2, CHR 0x80, CHR 0x86],
      [CHR 0xE2, CHR 0x80, CHR 0x87],
      [CHR 0xE2, CHR 0x80, CHR 0x88],
      [CHR 0xE2, CHR 0x80, CHR 0x89],
      [CHR 0xE2, CHR 0x80, CHR 0x8A],
      [CHR 0xE2, CHR 0x80, CHR 0xA8],
      [CHR 0xE2, CHR 0x80, CHR 0xA9],
      [CHR 0xE2, CHR 0x80, CHR 0xAF],
      [CHR 0xE2, CHR 0x81, CHR 0x9F],
      [CHR 0xE3, CHR 0x80, CHR 0x80]]"

definition spacePrefix :: "string \<Rightarrow> string option" where
  "spacePrefix s = find (HasPrefix s) spaceEncodings"

definition spaceSuffix :: "string \<Rightarrow> string option" where
  "spaceSuffix s = find (HasSuffix s) spaceEncodings"

function TrimLeftSpace :: "string \<Rightarrow> string" where
  "TrimLeftSpace s =
     (case spacePrefix s of None \<Rightarrow> s | Some e \<Rightarrow> TrimLeftSpace (drop (length e) s))"
  by pat_completeness auto
termination
proof (relation "measure length")
  show "wf (measure length)"
    by simp
next
  fix s e :: string
  assume "spacePrefix s = Some e"
  then have "e \<in> set spaceEncodings" and "HasPrefix s e"
    by (auto simp: spacePrefix_def find_Some_iff)
  moreover have "\<forall>x \<in> set spaceEncodings. x \<noteq> []"
    by (simp add: spaceEncodings_def)
  ultimately have "e \<noteq> []" and "length e \<le> length s"
    by (auto simp: HasPrefix_def)
  then show "(drop (length e) s, s) \<in> measure length"
    by (cases e) auto
qed

function TrimRightSpace :: "string \<Rightarrow> string" where
  "TrimRightSpace s =
     (case spaceSuffix s of None \<Rightarrow> s | Some e \<Rightarrow> TrimRightSpace (take (length s - length e) s))"
  by pat_completeness auto
termination
proof (relation "measure length")
  show "wf (measure length)"
    by simp
next
  fix s e :: string
  assume "spaceSuffix s = Some e"
  then have "e \<in> set spaceEncodings" and "HasSuffix s e"
    by (auto simp: spaceSuffix_def find_Some_iff)
  moreover have "\<forall>x \<in> set spaceEncodings. x \<noteq> []"
    by (simp add: spaceEncodings_def)
  ultimately have "e \<noteq> []" and "length e \<le> length s"
    by (auto simp: HasSuffix_def)
  then show "(take (length s - length e) s, s) \<in> measure length"
    by (cases e) auto
qed

definition TrimSpace :: "string \<Rightarrow> string" where
  "TrimSpace s = TrimRightSpace (TrimLeftSpace s)"

definition whitespaceOnly :: "string \<Rightarrow> bool" where
  "whitespaceOnly s = (\<exists>es. set es \<subseteq> set spaceEncodings \<and> s = concat es)"

text \<open>
  The beginning of \<^verbatim>\<open>main\<close>, up to the parsed target.  \<open>getenv\<close> is \<^verbatim>\<open>os.Getenv\<close>
  (the empty string for an unset variable) and \<open>parse\<close> is \<^verbatim>\<open>url.Parse\<close>; both calls
  of \<^verbatim>\<open>log.Fatalf\<close> end the process and are the \<open>Inl\<close> results.
\<close>

definition defaultListenAddr :: string where
  "defaultListenAddr = '':8080''"

definition envBaseURL :: string where
  "envBaseURL = ''MIST_BASE_URL''"

definition envToken :: string where
  "envToken = ''MIST_API_TOKEN''"

definition envListenAddr :: string where
  "envListenAddr = ''MIST_LISTEN_ADDR''"

datatype fatal = MissingEnvironment | BaseURLParseFailed string

record config =
  cfgTarget :: url
  cfgToken :: string
  cfgListenAddr :: string

definition startup :: "(string \<Rightarrow> string + url) \<Rightarrow> (string \<Rightarrow> string) \<Rightarrow> fatal + config" where
  "startup parse getenv =
     (let baseURL = TrimSpace (getenv envBaseURL);
          token = TrimSpace (getenv envToken);
          listenAddr = TrimSpace (getenv envListenAddr);
          listenAddr = (if listenAddr = [] then defaultListenAddr else listenAddr)
      in if baseURL = [] \<or> token = [] then Inl MissingEnvironment
         else case parse baseURL of
                Inl err \<Rightarrow> Inl (BaseURLParseFailed err)
              | Inr target \<Rightarrow>
                  Inr \<lparr>cfgTarget = target, cfgToken = token, cfgListenAddr = listenAddr\<rparr>)"

text \<open>Sample environments: a blank token, and padded values with a blank listen address.\<close>

definition blankTokenEnv :: "string \<Rightarrow> string" where
  "blankTokenEnv name =
     (if name = envBaseURL then ''https://api.mist.com''
      else if name = envToken then [CHR 0x20, CHR 0x09]
      else [])"

definition paddedEnv :: "string \<Rightarrow> string" where
  "paddedEnv name =
     (if name = envBaseURL then '' https://api.mist.com'' @ [CHR 0x0A]
      else if name = envToken then [CHR 0x09] @ ''s3cret ''
      else if name = envListenAddr then [CHR 0x20, CHR 0xE3, CHR 0x80, CHR 0x80]
      else [])"

definition sampleParse :: "string \<Rightarrow> string + url" where
  "sampleParse s =
     (if s = ''https://api.mist.com'' then Inr originTarget else Inl ''unsupported'')"

section \<open>Response writers, handlers and the access log\<close>

text \<open>
  A handler talks to its \<^verbatim>\<open>http.ResponseWriter\<close> through method calls only.  The calls
  made in this program are the constructors of \<open>rwop\<close>: \<^verbatim>\<open>Header().Set\<close>,
  \<^verbatim>\<open>Header().Add\<close>, \<^verbatim>\<open>Header().Del\<close>, the clearing of the header map, \<^verbatim>\<open>WriteHeader\<close>
  and \<^verbatim>\<open>Write\<close>.
\<close>

datatype rwop =
  SetHeader string string
| AddHeader string string
| DelHeader string
| ClearHeader
| WriteHeader int
| Write string

text \<open>\<^verbatim>\<open>Header.Add\<close> appends the value under the canonical form of the key.\<close>

definition Header_Add :: "header \<Rightarrow> string \<Rightarrow> string \<Rightarrow> header" where
  "Header_Add h key v =
     (let k = CanonicalMIMEHeaderKey key in
      h(k \<mapsto> (case h k of None \<Rightarrow> [] | Some vs \<Rightarrow> vs) @ [v]))"

text \<open>
  The server's writer, as the contract of \<^verbatim>\<open>http.ResponseWriter\<close> describes it and
  \<^verbatim>\<open>net/http/server.go\<close> implements it: the method of the request it answers, the header
  map the handler edits, whether the final status line has gone out, that status with the
  handler's headers of that moment, the 1xx statuses sent before it, and the body bytes
  sent to the client.
\<close>

record responseWriter =
  reqMethod :: string
  handlerHeader :: header
  wroteHeader :: bool
  status :: int
  sentHeader :: header
  informational :: "int list"
  written :: string

definition newResponseWriter :: "string \<Rightarrow> responseWriter" where
  "newResponseWriter method = \<lparr>reqMethod = method, handlerHeader = Map.empty,
     wroteHeader = False, status = 0, sentHeader = Map.empty, informational = [],
     written = []\<rparr>"

text \<open>
  \<^verbatim>\<open>WriteHeader\<close>: a call after the header went out is ignored (the server logs it as
  superfluous); a code outside 100..999 panics (\<open>None\<close>); a 1xx code other than 101 is
  sent at once and leaves the header open; any other code is the final status.
  \<^verbatim>\<open>Write\<close> sends status 200 first when no header went out; it sends no byte when the
  status allows no body (1xx, 204, 304) and none for a HEAD request.  The server sends
  status 200 itself when the handler returns with the header still open
  (\<open>finishRequest\<close>).
\<close>

definition response_WriteHeader :: "int \<Rightarrow> responseWriter \<Rightarrow> responseWriter option" where
  "response_WriteHeader code w =
     (if wroteHeader w then Some w
      else if code < 100 \<or> 999 < code then None
      else if 100 \<le> code \<and> code \<le> 199 \<and> code \<noteq> 101
        then Some (w\<lparr>informational := informational w @ [code]\<rparr>)
      else Some (w\<lparr>wroteHeader := True, status := code, sentHeader := handlerHeader w\<rparr>))"

definition bodyAllowedForStatus :: "int \<Rightarrow> bool" where
  "bodyAllowedForStatus code = (\<not> (100 \<le> code \<and> code \<le> 199) \<and> code \<noteq> 204 \<and> code \<noteq> 304)"

definition response_Write :: "string \<Rightarrow> responseWriter \<Rightarrow> responseWriter option" where
  "response_Write b w =
     (case (if wroteHeader w then Some w else response_WriteHeader 200 w) of
        None \<Rightarrow> None
      | Some w \<Rightarrow>
          if b = [] \<or> \<not> bodyAllowedForStatus (status w) \<or> reqMethod w = ''HEAD'' then Some w
          else Some (w\<lparr>written := written w @ b\<rparr>))"

definition finishRequest :: "responseWriter \<Rightarrow> responseWriter" where
  "finishRequest w =
     (if wroteHeader w then w
      else w\<lparr>wroteHeader := True, status := 200, sentHeader := handlerHeader w\<rparr>)"

text \<open>
  \<^verbatim>\<open>loggingResponseWriter\<close> embeds the writer and adds \<^verbatim>\<open>statusCode\<close>.  Its own method
  \<^verbatim>\<open>WriteHeader\<close> stores the code and passes the call on; every other method is the
  embedded writer's, so \<^verbatim>\<open>Write\<close> and the header calls do not touch \<^verbatim>\<open>statusCode\<close>.
\<close>

record loggingResponseWriter =
  ResponseWriter :: responseWriter
  statusCode :: int

definition lrw_WriteHeader :: "int \<Rightarrow> loggingResponseWriter \<Rightarrow> loggingResponseWriter option" where
  "lrw_WriteHeader code lrw =
     (let lrw = lrw\<lparr>statusCode := code\<rparr> in
      case response_WriteHeader code (ResponseWriter lrw) of
        None \<Rightarrow> None
      | Some w \<Rightarrow> Some (lrw\<lparr>ResponseWriter := w\<rparr>))"

definition editHeader :: "(header \<Rightarrow> header) \<Rightarrow> loggingResponseWriter \<Rightarrow> loggingResponseWriter" where
  "editHeader f lrw =
     lrw\<lparr>ResponseWriter := (ResponseWriter lrw)\<lparr>handlerHeader := f (handlerHeader (ResponseWriter lrw))\<rparr>\<rparr>"

fun lrw_call :: "rwop \<Rightarrow> loggingResponseWriter \<Rightarrow> loggingResponseWriter option" where
  "lrw_call (WriteHeader code) lrw = lrw_WriteHeader code lrw"
| "lrw_call (Write b) lrw =
     (case response_Write b (ResponseWriter lrw) of
        None \<Rightarrow> None
      | Some w \<Rightarrow> Some (lrw\<lparr>ResponseWriter := w\<rparr>))"
| "lrw_call (SetHeader k v) lrw = Some (editHeader (\<lambda>h. Header_Set h k v) lrw)"
| "lrw_call (AddHeader k v) lrw = Some (editHeader (\<lambda>h. Header_Add h k v) lrw)"
| "lrw_call (DelHeader k) lrw = Some (editHeader (\<lambda>h. Header_Del h k) lrw)"
| "lrw_call ClearHeader lrw = Some (editHeader (\<lambda>h. Map.empty) lrw)"

text \<open>
  What a handler does, in program order: calls on the writer it was given, lines printed
  with \<^verbatim>\<open>log.Printf\<close>, the call of the transport's \<^verbatim>\<open>RoundTrip\<close>, the response rewrite,
  and a panic, which ends the handler and everything above it.
\<close>

record response =
  StatusCode :: int
  RespHeader :: header
  RespBody :: string

datatype event =
  Call rwop
| LogPrintf string
| RoundTrip
| ResponseRewrite response
| Panic

text \<open>
  The log: lines of handlers, and the access line with its five fields (method, URL,
  status, elapsed time, remote host).
\<close>

datatype logLine =
  Line string
| AccessLine string url int nat string

fun runHandler ::
  "event list \<Rightarrow> loggingResponseWriter \<times> logLine list \<Rightarrow> (loggingResponseWriter \<times> logLine list) option"
where
  "runHandler [] s = Some s"
| "runHandler (Call op # es) (lrw, lg) =
     (case lrw_call op lrw of None \<Rightarrow> None | Some lrw \<Rightarrow> runHandler es (lrw, lg))"
| "runHandler (LogPrintf l # es) (lrw, lg) = runHandler es (lrw, lg @ [Line l])"
| "runHandler (RoundTrip # es) s = runHandler es s"
| "runHandler (ResponseRewrite r # es) s = runHandler es s"
| "runHandler (Panic # es) s = None"

text \<open>The health handler ignores the request.\<close>

definition healthHandler :: "request \<Rightarrow> event list" where
  \<open>healthHandler r =
     [Call (SetHeader ''Content-Type'' ''application/json''),
      Call (Write ''{"status":"ok"}'')]\<close>

text \<open>
  \<^verbatim>\<open>loggingMiddleware(next)\<close>: the remote host, the wrapped writer with \<^verbatim>\<open>statusCode\<close>
  set to \<^verbatim>\<open>http.StatusOK\<close>, the handler, then the access line.  \<open>elapsed\<close> is what
  \<^verbatim>\<open>time.Since(start)\<close> returns.  A panic of the handler passes through: no line is
  printed.
\<close>

definition loggingMiddleware ::
  "(request \<Rightarrow> event list) \<Rightarrow> nat \<Rightarrow> responseWriter \<Rightarrow> request \<Rightarrow> (responseWriter \<times> logLine list) option"
where
  "loggingMiddleware next elapsed rw req =
     (let remote = remoteIP (RemoteAddr req);
          lrw = \<lparr>ResponseWriter = rw, statusCode = 200\<rparr>
      in case runHandler (next req) (lrw, []) of
           None \<Rightarrow> None
         | Some (lrw, lg) \<Rightarrow>
             Some (ResponseWriter lrw,
                   lg @ [AccessLine (Method req) (URL req) (statusCode lrw) elapsed remote]))"

text \<open>
  The two string literals of \<^verbatim>\<open>ErrorHandler\<close>, as their UTF-8 bytes: the message sent to
  the client and the prefix of the log line (\<^verbatim>\<open>"...: %v"\<close> with the error appended).
\<close>

definition upstreamErrorMessage :: string where
  "upstreamErrorMessage =
     [CHR 0xE3, CHR 0x82, CHR 0xA2, CHR 0xE3, CHR 0x83, CHR 0x83, CHR 0xE3, CHR 0x83,
      CHR 0x97, CHR 0xE3, CHR 0x82, CHR 0xB9, CHR 0xE3, CHR 0x83, CHR 0x88, CHR 0xE3,
      CHR 0x83, CHR 0xAA, CHR 0xE3, CHR 0x83, CHR 0xBC, CHR 0xE3, CHR 0x83, CHR 0xA0,
      CHR 0xE3, CHR 0x81, CHR 0xB8, CHR 0xE3, CHR 0x81, CHR 0xAE, CHR 0xE6, CHR 0x8E,
      CHR 0xA5, CHR 0xE7, CHR 0xB6, CHR 0x9A, CHR 0xE3, CHR 0x81, CHR 0xAB, CHR 0xE5,
      CHR 0xA4, CHR 0xB1, CHR 0xE6, CHR 0x95, CHR 0x97, CHR 0xE3, CHR 0x81, CHR 0x97,
      CHR 0xE3, CHR 0x81, CHR 0xBE, CHR 0xE3, CHR 0x81, CHR 0x97, CHR 0xE3, CHR 0x81,
      CHR 0x9F]"

definition proxyErrorPrefix :: string where
  "proxyErrorPrefix =
     [CHR 0xE3, CHR 0x83, CHR 0x97, CHR 0xE3, CHR 0x83, CHR 0xAD, CHR 0xE3, CHR 0x82,
      CHR 0xAD, CHR 0xE3, CHR 0x82, CHR 0xB7, CHR 0xE3, CHR 0x82, CHR 0xA8, CHR 0xE3,
      CHR 0x83, CHR 0xA9, CHR 0xE3, CHR 0x83, CHR 0xBC, CHR 0x3A, CHR 0x20]"

definition StatusBadGateway :: int where
  "StatusBadGateway = 502"

text \<open>
  \<^verbatim>\<open>http.Error(rw, msg, code)\<close>: it clears Content-Length (Go 1.23 and later), sets the
  two headers, writes the status and prints the message with a newline.
\<close>

definition http_Error :: "string \<Rightarrow> int \<Rightarrow> event list" where
  "http_Error msg code =
     [Call (DelHeader ''Content-Length''),
      Call (SetHeader ''Content-Type'' ''text/plain; charset=utf-8''),
      Call (SetHeader ''X-Content-Type-Options'' ''nosniff''),
      Call (WriteHeader code),
      Call (Write (msg @ [CHR 0x0A]))]"

definition ErrorHandler :: "string \<Rightarrow> event list" where
  "ErrorHandler err =
     LogPrintf (proxyErrorPrefix @ err) # http_Error upstreamErrorMessage StatusBadGateway"

definition ModifyResponse :: "response \<Rightarrow> response" where
  "ModifyResponse resp = resp\<lparr>RespHeader := stripHopHeaders (RespHeader resp)\<rparr>"

text \<open>
  While the round trip runs, the reverse proxy forwards every 1xx response the upstream
  sends (the transport reports those of 100..199 other than 101): it adds the header
  fields of the 1xx response to the writer's header map, in the order in which it visits
  them, writes the status and clears the map.
\<close>

definition forward1xx :: "int \<times> (string \<times> string) list \<Rightarrow> event list" where
  "forward1xx info =
     map (\<lambda>(k, v). Call (AddHeader k v)) (snd info) @
     [Call (WriteHeader (fst info)), Call ClearHeader]"

text \<open>
  The handler \<^verbatim>\<open>newMistProxy\<close> returns, along the control flow of
  \<^verbatim>\<open>ReverseProxy.ServeHTTP\<close>: the director on the outbound request, the round trip with
  the 1xx responses forwarded during it, then either \<^verbatim>\<open>ErrorHandler\<close> (the round trip
  returned an error) or \<^verbatim>\<open>ModifyResponse\<close> and the delivery of the response.  A panic of
  the director ends the handler.  Two parts of the library are parameters.  \<open>upstream\<close>
  is the outcome of the round trip for an inbound request and the director's output, the
  1xx responses and then the error text or the response as \<^verbatim>\<open>ModifyResponse\<close> receives
  it; \<^verbatim>\<open>ServeHTTP\<close> edits the outbound request further before the transport gets it
  (the headers named by Connection, X-Forwarded-For, User-Agent, Te), which is inside
  this parameter.  \<open>deliver\<close> is what \<^verbatim>\<open>ServeHTTP\<close> does with the rewritten response: the
  header copy, the status, the body copy and the trailers, or the refusal of a 101
  response.  The director has removed Connection, so no protocol upgrade is asked for and
  \<^verbatim>\<open>ErrorHandler\<close> is not called before the round trip.
\<close>

definition newMistProxy ::
  "(url \<Rightarrow> string) \<Rightarrow>
   (request \<Rightarrow> request \<Rightarrow> (int \<times> (string \<times> string) list) list \<times> (string + response)) \<Rightarrow>
   (response \<Rightarrow> event list) \<Rightarrow> url \<Rightarrow> string \<Rightarrow> request \<Rightarrow> event list"
where
  "newMistProxy esc upstream deliver target token req =
     (case director esc target token req of
        None \<Rightarrow> [Panic]
      | Some outreq \<Rightarrow>
          (case upstream req outreq of
             (infos, result) \<Rightarrow>
               RoundTrip # concat (map forward1xx infos) @
               (case result of
                  Inl err \<Rightarrow> ErrorHandler err
                | Inr res \<Rightarrow>
                    let res = ModifyResponse res in ResponseRewrite res # deliver res)))"

text \<open>
  \<^verbatim>\<open>path.Clean\<close> on a rooted path: empty elements and \<open>.\<close> are dropped, \<open>..\<close> removes
  the element before it and is dropped at the root.  \<^verbatim>\<open>cleanPath\<close> of \<^verbatim>\<open>net/http\<close>
  roots the path, cleans it and puts a trailing slash back.
\<close>

fun splitSlash :: "string \<Rightarrow> string list" where
  "splitSlash [] = [[]]"
| "splitSlash (c # cs) =
     (if c = CHR ''/'' then [] # splitSlash cs
      else case splitSlash cs of [] \<Rightarrow> [[c]] | e # es \<Rightarrow> (c # e) # es)"

fun cleanElems :: "string list \<Rightarrow> string list \<Rightarrow> string list" where
  "cleanElems kept [] = rev kept"
| "cleanElems kept (e # es) =
     (if e = [] \<or> e = ''.'' then cleanElems kept es
      else if e = ''..'' then cleanElems (drop 1 kept) es
      else cleanElems (e # kept) es)"

definition path_Clean :: "string \<Rightarrow> string" where
  "path_Clean p =
     (case cleanElems [] (splitSlash p) of
        [] \<Rightarrow> ''/''
      | es \<Rightarrow> concat (map (\<lambda>e. CHR ''/'' # e) es))"

definition cleanPath :: "string \<Rightarrow> string" where
  "cleanPath p =
     (if p = [] then ''/''
      else
        let p = (if hd p \<noteq> CHR ''/'' then CHR ''/'' # p else p);
            np = path_Clean p
        in if last p = CHR ''/'' \<and> np \<noteq> ''/''
           then (if length p = length np + 1 \<and> HasPrefix p np then p else np @ ''/'')
           else np)"

text \<open>
  The decision of \<^verbatim>\<open>ServeMux\<close> for the two patterns of \<^verbatim>\<open>main\<close>, \<open>/health\<close> and \<open>/\<close>.
  The request target \<open>*\<close> (the only one with the path \<open>*\<close>) is answered with 400.  A
  CONNECT request is matched as it is.  Any other request whose path is not clean is
  answered with a redirect to the clean path.  A path matches \<open>/health\<close> exactly, or \<open>/\<close>
  when it starts with a slash, or nothing.
\<close>

datatype route = BadRequest | Redirect string | NotFound | ToHealth | ToProxy

definition muxMatch :: "string \<Rightarrow> route" where
  "muxMatch path =
     (if path = ''/health'' then ToHealth
      else if HasPrefix path ''/'' then ToProxy
      else NotFound)"

definition muxRoute :: "request \<Rightarrow> route" where
  "muxRoute req =
     (let path = Path (URL req) in
      if path = ''*'' then BadRequest
      else if Method req = ''CONNECT'' then muxMatch path
      else if cleanPath path \<noteq> path then Redirect (cleanPath path)
      else muxMatch path)"

text \<open>
  The handler \<^verbatim>\<open>mux\<close> of \<^verbatim>\<open>main\<close>.  \<open>answer\<close> stands for the responses \<^verbatim>\<open>ServeMux\<close>
  writes itself (400, the redirect, 404), whose text is not modelled.  \<open>serve\<close> is the
  server calling \<^verbatim>\<open>loggingMiddleware(mux)\<close> with a fresh writer for the request and
  finishing the response.
\<close>

definition mux ::
  "(route \<Rightarrow> request \<Rightarrow> event list) \<Rightarrow> (request \<Rightarrow> event list) \<Rightarrow> (request \<Rightarrow> event list) \<Rightarrow>
   request \<Rightarrow> event list"
where
  "mux answer health proxy req =
     (case muxRoute req of
        ToHealth \<Rightarrow> health req
      | ToProxy \<Rightarrow> proxy req
      | r \<Rightarrow> answer r req)"

definition serve ::
  "(request \<Rightarrow> event list) \<Rightarrow> nat \<Rightarrow> request \<Rightarrow> (responseWriter \<times> logLine list) option"
where
  "serve next elapsed req =
     (case loggingMiddleware next elapsed (newResponseWriter (Method req)) req of
        None \<Rightarrow> None
      | Some (w, lg) \<Rightarrow> Some (finishRequest w, lg))"

text \<open>
  Projections of a handler's events.  \<open>oneFinalStatus\<close> holds of events that write
  exactly one status, a final one, before any body byte.
\<close>

definition forwarded :: "event list \<Rightarrow> event list" where
  "forwarded evs = filter (\<lambda>e. e = RoundTrip) evs"


definition headerCodes :: "event list \<Rightarrow> int list" where
  "headerCodes evs =
     List.map_filter (\<lambda>e. case e of Call (WriteHeader c) \<Rightarrow> Some c | _ \<Rightarrow> None) evs"

definition printed :: "event list \<Rightarrow> string list" where
  "printed evs = List.map_filter (\<lambda>e. case e of LogPrintf l \<Rightarrow> Some l | _ \<Rightarrow> None) evs"

fun isHeaderCall :: "event \<Rightarrow> bool" where
  "isHeaderCall (Call (WriteHeader c)) = True"
| "isHeaderCall e = False"

fun isBodyWrite :: "event \<Rightarrow> bool" where
  "isBodyWrite (Call (Write b)) = True"
| "isBodyWrite e = False"

definition informationalCode :: "int \<Rightarrow> bool" where
  "informationalCode c = (100 \<le> c \<and> c \<le> 199 \<and> c \<noteq> 101)"

definition oneFinalStatus :: "event list \<Rightarrow> bool" where
  "oneFinalStatus evs =
     (case headerCodes evs of
        [c] \<Rightarrow> \<not> informationalCode c \<and>
               \<not> list_ex isBodyWrite (takeWhile (\<lambda>e. \<not> isHeaderCall e) evs)
      | _ \<Rightarrow> False)"

text \<open>
  The final status the client gets for a wrapped writer: the one written, or the 200 the
  server sends when the handler returns with the header still open.
\<close>

definition sentStatus :: "loggingResponseWriter \<Rightarrow> int" where
  "sentStatus l = status (finishRequest (ResponseWriter l))"

text \<open>
  Sample values: an upstream that is down, one that sends Early Hints before its
  response, the delivery of a response without header fields and trailers, answers of
  the mux reduced to their status, a request whose path is not clean, and a request for
  the health path.
\<close>

definition downUpstream ::
  "request \<Rightarrow> request \<Rightarrow> (int \<times> (string \<times> string) list) list \<times> (string + response)"
where
  "downUpstream req outreq =
     ([], Inl ''dial tcp 203.0.113.9:443: connect: connection refused'')"

definition earlyHintsUpstream ::
  "request \<Rightarrow> request \<Rightarrow> (int \<times> (string \<times> string) list) list \<times> (string + response)"
where
  "earlyHintsUpstream req outreq =
     ([(103, [(''Link'', ''</app.css>; rel=preload'')])],
      Inr \<lparr>StatusCode = 200, RespHeader = Map.empty, RespBody = ''[]''\<rparr>)"

definition plainDelivery :: "response \<Rightarrow> event list" where
  "plainDelivery res = [Call (WriteHeader (StatusCode res)), Call (Write (RespBody res))]"

definition statusAnswer :: "route \<Rightarrow> request \<Rightarrow> event list" where
  "statusAnswer r req =
     [Call (WriteHeader (case r of BadRequest \<Rightarrow> 400 | Redirect p \<Rightarrow> 301 | _ \<Rightarrow> 404))]"

definition uncleanRequest :: request where
  "uncleanRequest = sampleRequest\<lparr>URL := (URL sampleRequest)\<lparr>Path := ''/sites//x''\<rparr>\<rparr>"

definition healthRequest :: request where
  "healthRequest = \<lparr>Method = ''GET'',
     URL = \<lparr>Scheme = [], Host = [], Path = ''/health'', RawPath = [], RawQuery = []\<rparr>,
     ReqHost = ''localhost:8080'', Header = Map.empty, Body = [],
     RemoteAddr = ''192.0.2.7:51234''\<rparr>"

section \<open>Properties of the Header Hygiene Filter\<close>

lemma canon_hopHeaders:
  "CanonicalMIMEHeaderKey ''Connection'' = ''Connection''"
  "CanonicalMIMEHeaderKey ''Keep-Alive'' = ''Keep-Alive''"
  "CanonicalMIMEHeaderKey ''Proxy-Authenticate'' = ''Proxy-Authenticate''"
  "CanonicalMIMEHeaderKey ''Proxy-Authorization'' = ''Proxy-Authorization''"
  "CanonicalMIMEHeaderKey ''Te'' = ''Te''"
  "CanonicalMIMEHeaderKey ''Trailer'' = ''Trailer''"
  "CanonicalMIMEHeaderKey ''Transfer-Encoding'' = ''Transfer-Encoding''"
  "CanonicalMIMEHeaderKey ''Upgrade'' = ''Upgrade''"
  by code_simp+

lemma canon_TE: "CanonicalMIMEHeaderKey ''TE'' = ''Te''"
  by code_simp

lemma fold_Header_Del:
  "fold (\<lambda>h hdr. Header_Del hdr h) ks hdr k =
     (if k \<in> CanonicalMIMEHeaderKey ` set ks then None else hdr k)"
  by (induction ks arbitrary: hdr) (auto simp: Header_Del_def)

lemma canon_image_hopHeaders: "CanonicalMIMEHeaderKey ` set hopHeaders = set hopHeaders"
  unfolding hopHeaders_def list.set image_insert image_empty canon_hopHeaders ..

lemma stripHopHeaders_apply:
  "stripHopHeaders h k = (if k \<in> set hopHeaders then None else h k)"
  unfolding stripHopHeaders_def fold_Header_Del canon_image_hopHeaders ..

lemma stripHopHeaders_idem: "stripHopHeaders (stripHopHeaders h) = stripHopHeaders h"
  by (rule ext) (simp add: stripHopHeaders_apply)

lemma byte_lt_256: "byte c < 256"
  by (simp add: byte_def)

lemma byte_char_of: "n < 256 \<Longrightarrow> byte (char_of n) = n"
  by (simp add: byte_def)

lemma byte_inject: "byte c = byte d \<Longrightarrow> c = d"
  by (simp add: byte_def)

lemma byte_toLowerASCII:
  "byte (toLowerASCII c) = (if 65 \<le> byte c \<and> byte c \<le> 90 then byte c + 32 else byte c)"
  by (simp add: toLowerASCII_def isUpperASCII_def byte_char_of)

lemma byte_canonByte:
  "byte (canonByte u c) =
     (if u \<and> 97 \<le> byte c \<and> byte c \<le> 122 then byte c - 32
      else if \<not> u \<and> 65 \<le> byte c \<and> byte c \<le> 90 then byte c + 32
      else byte c)"
  using byte_lt_256 [of c]
  by (simp add: canonByte_def isUpperASCII_def isLowerASCII_def byte_char_of)

lemma canonByte_fold:
  assumes "toLowerASCII c = toLowerASCII d"
  shows "canonByte u c = canonByte u d"
proof -
  from assms have "byte (toLowerASCII c) = byte (toLowerASCII d)"
    by simp
  then have "byte (canonByte u c) = byte (canonByte u d)"
    unfolding byte_toLowerASCII byte_canonByte
    by (auto split: if_splits)
  then show ?thesis
    by (rule byte_inject)
qed

lemma canonLoop_fold:
  "map toLowerASCII s = map toLowerASCII t \<Longrightarrow> canonLoop u s = canonLoop u t"
proof (induction s arbitrary: t u)
  case Nil
  then show ?case by simp
next
  case (Cons c cs)
  then obtain d ds where t: "t = d # ds"
    by (cases t) auto
  with Cons.prems have hd: "toLowerASCII c = toLowerASCII d"
    and tl: "map toLowerASCII cs = map toLowerASCII ds"
    by simp_all
  from hd have "canonByte u c = canonByte u d"
    by (rule canonByte_fold)
  with Cons.IH [OF tl] t show ?case
    by (simp add: Let_def)
qed

lemma valid_toLowerASCII: "validHeaderFieldByte (toLowerASCII c) = validHeaderFieldByte c"
  by (auto simp: validHeaderFieldByte_def isLowerASCII_def isUpperASCII_def isDigitASCII_def
      byte_toLowerASCII)

lemma valid_fold:
  assumes "map toLowerASCII s = map toLowerASCII t"
  shows "list_all validHeaderFieldByte s = list_all validHeaderFieldByte t"
proof -
  have "list_all validHeaderFieldByte u = list_all validHeaderFieldByte (map toLowerASCII u)"
    for u
    by (induction u) (simp_all add: valid_toLowerASCII)
  with assms show ?thesis
    by metis
qed

lemma canonical_fold:
  "equalFold s t \<Longrightarrow> CanonicalMIMEHeaderKey s = CanonicalMIMEHeaderKey t \<or> \<not> list_all validHeaderFieldByte t"
  unfolding equalFold_def CanonicalMIMEHeaderKey_def
  using canonLoop_fold [of s t True] valid_fold [of s t]
  by auto

lemma valid_namedHopByHop: "\<forall>n \<in> set namedHopByHop. list_all validHeaderFieldByte n"
  by code_simp

lemma canon_namedHopByHop:
  "\<forall>n \<in> set namedHopByHop. CanonicalMIMEHeaderKey n \<in> set hopHeaders"
  by code_simp

lemma canonical_hop_name:
  assumes "isHopByHopName k" and "CanonicalMIMEHeaderKey k = k"
  shows "k \<in> set hopHeaders"
proof -
  from assms(1) obtain n where n: "n \<in> set namedHopByHop" and "equalFold k n"
    by (auto simp: isHopByHopName_def list_ex_iff)
  with canonical_fold [of k n] valid_namedHopByHop
  have "CanonicalMIMEHeaderKey k = CanonicalMIMEHeaderKey n"
    by blast
  with n canon_namedHopByHop assms(2) show ?thesis
    by auto
qed

lemma stripHopHeaders_any_casing:
  assumes "canonicalKeys h" and "isHopByHopName k"
  shows "stripHopHeaders h k = None"
proof (cases "h k")
  case None
  then show ?thesis
    by (simp add: stripHopHeaders_apply)
next
  case (Some vs)
  then have "k \<in> dom h"
    by auto
  with assms(1) have "CanonicalMIMEHeaderKey k = k"
    by (simp add: canonicalKeys_def)
  with assms(2) have "k \<in> set hopHeaders"
    by (rule canonical_hop_name)
  then show ?thesis
    by (simp add: stripHopHeaders_apply)
qed

text \<open>
  C3, as the code has it.  \<^verbatim>\<open>Header.Del\<close> deletes the one key that is the canonical form
  of its argument, so \<^verbatim>\<open>stripHopHeaders\<close> removes exactly the eight canonical spellings
  \<open>hopHeaders\<close>: after it none of them is a key, every other key keeps its value list
  (values and their order), and running the filter twice is running it once.  When the
  collection stores its names in canonical form, as every collection built by Go's HTTP
  parsers is, this removes the eight headers under any letter-casing.
\<close>

theorem stripHopHeaders_hygiene:
  "(\<forall>k \<in> set hopHeaders. stripHopHeaders h k = None) \<and>
   (\<forall>k. k \<notin> set hopHeaders \<longrightarrow> stripHopHeaders h k = h k) \<and>
   stripHopHeaders (stripHopHeaders h) = stripHopHeaders h \<and>
   (canonicalKeys h \<longrightarrow> (\<forall>k. isHopByHopName k \<longrightarrow> stripHopHeaders h k = None))"
  using stripHopHeaders_any_casing [of h]
  by (simp add: stripHopHeaders_apply stripHopHeaders_idem)

lemma canon_Content_Type: "CanonicalMIMEHeaderKey ''Content-Type'' = ''Content-Type''"
  by code_simp

lemma isHopByHopName_Te: "isHopByHopName ''Te''"
  by code_simp

theorem stripHopHeaders_hygiene_witness:
  "canonicalKeys [''Te'' \<mapsto> [''trailers''], ''Content-Type'' \<mapsto> [''a'', ''b'']] \<and>
   ''Te'' \<in> set hopHeaders \<and> isHopByHopName ''Te'' \<and> ''Content-Type'' \<notin> set hopHeaders \<and>
   stripHopHeaders [''Te'' \<mapsto> [''trailers''], ''Content-Type'' \<mapsto> [''a'', ''b'']] ''Te'' = None \<and>
   stripHopHeaders [''Te'' \<mapsto> [''trailers''], ''Content-Type'' \<mapsto> [''a'', ''b'']] ''Content-Type''
     = Some [''a'', ''b'']"
proof -
  have c: "canonicalKeys [''Te'' \<mapsto> [''trailers''], ''Content-Type'' \<mapsto> [''a'', ''b'']]"
    by (simp add: canonicalKeys_def canon_Content_Type canon_hopHeaders)
  have m: "''Te'' \<in> set hopHeaders" "''Content-Type'' \<notin> set hopHeaders"
    by (simp_all add: hopHeaders_def)
  from c m isHopByHopName_Te
    stripHopHeaders_hygiene [of "[''Te'' \<mapsto> [''trailers''], ''Content-Type'' \<mapsto> [''a'', ''b'']]"]
  show ?thesis
    by simp
qed

text \<open>
  C3 as stated fails on a collection that stores a name in another casing: the key \<open>TE\<close>,
  which is how the specification spells the header, survives the filter.
\<close>

lemma isHopByHopName_TE: "isHopByHopName ''TE''"
  by code_simp

theorem stripHopHeaders_casing_counterexample:
  "isHopByHopName ''TE'' \<and>
   stripHopHeaders [''TE'' \<mapsto> [''trailers'']] ''TE'' = Some [''trailers'']"
  using isHopByHopName_TE
  by (simp add: stripHopHeaders_apply hopHeaders_def)

section \<open>Properties of the request rewrite\<close>

lemma canon_set_keys:
  "CanonicalMIMEHeaderKey ''Authorization'' = ''Authorization''"
  "CanonicalMIMEHeaderKey ''Accept'' = ''Accept''"
  by code_simp+

lemma director_Some:
  assumes "director esc target token req = Some out"
  obtains r where "rewriteRequestURL esc req target = Some r"
    and "out = r\<lparr>ReqHost := Host target,
           Header := stripHopHeaders
             (((Header r)(''Authorization'' \<mapsto> [''Token '' @ token]))(''Accept'' \<mapsto> [''application/json'']))\<rparr>"
  using assms
  by (auto simp: director_def Let_def Header_Set_def canon_set_keys split: option.splits)

lemma rewriteRequestURL_Some:
  assumes "rewriteRequestURL esc req target = Some r"
  obtains p rp where
    "joinURLPath esc target ((URL req)\<lparr>Scheme := Scheme target, Host := Host target\<rparr>) = Some (p, rp)"
    and "r = req\<lparr>URL := (URL req)\<lparr>Scheme := Scheme target, Host := Host target, Path := p, RawPath := rp,
           RawQuery := (if RawQuery target = [] \<or> RawQuery (URL req) = []
                        then RawQuery target @ RawQuery (URL req)
                        else RawQuery target @ ''&'' @ RawQuery (URL req))\<rparr>\<rparr>"
  using assms
  by (auto simp: rewriteRequestURL_def Let_def split: option.splits if_splits)

lemma joinURLPath_returns:
  "Path b \<noteq> [] \<or> (RawPath a = [] \<and> RawPath b = []) \<Longrightarrow> joinURLPath esc a b \<noteq> None"
  by (auto simp: joinURLPath_def Let_def)

lemma director_returns:
  assumes "Path (URL req) \<noteq> [] \<or> (RawPath target = [] \<and> RawPath (URL req) = [])"
  shows "director esc target token req \<noteq> None"
proof -
  from assms
  have "joinURLPath esc target ((URL req)\<lparr>Scheme := Scheme target, Host := Host target\<rparr>) \<noteq> None"
    by (intro joinURLPath_returns) simp
  then show ?thesis
    by (auto simp: director_def rewriteRequestURL_def Let_def split: option.splits)
qed

lemma hop_not_set_keys: "''Authorization'' \<notin> set hopHeaders" "''Accept'' \<notin> set hopHeaders"
  by (simp_all add: hopHeaders_def)

lemma director_header:
  assumes "director esc target token req = Some out"
  shows "Header out k =
     (if k \<in> set hopHeaders then None
      else if k = ''Accept'' then Some [''application/json'']
      else if k = ''Authorization'' then Some [''Token '' @ token]
      else Header req k)"
proof -
  from assms obtain r where r: "rewriteRequestURL esc req target = Some r"
    and out: "out = r\<lparr>ReqHost := Host target,
           Header := stripHopHeaders
             (((Header r)(''Authorization'' \<mapsto> [''Token '' @ token]))(''Accept'' \<mapsto> [''application/json'']))\<rparr>"
    by (rule director_Some)
  from r have "Header r = Header req"
    by (elim rewriteRequestURL_Some) simp
  with out show ?thesis
    by (simp add: stripHopHeaders_apply)
qed

lemma valid_Authorization: "list_all validHeaderFieldByte ''Authorization''"
  by code_simp

lemma canonical_other_casing:
  assumes "canonicalKeys h" and "equalFold k ''Authorization''" and "k \<noteq> ''Authorization''"
  shows "h k = None"
proof (rule ccontr)
  assume "h k \<noteq> None"
  then have "k \<in> dom h"
    by auto
  with assms(1) have "CanonicalMIMEHeaderKey k = k"
    by (simp add: canonicalKeys_def)
  with canonical_fold [OF assms(2)] valid_Authorization assms(3) show False
    by (simp add: canon_set_keys)
qed

lemma equalFold_length: "equalFold s t \<Longrightarrow> length s = length t"
  unfolding equalFold_def by (rule map_eq_imp_length_eq)

text \<open>
  C1.  Whenever the rewrite hands a request on, its Authorization header is the one value
  \<open>Token <credential>\<close>, whatever the inbound request carried, and (the inbound names
  being stored in canonical form) no entry remains under another casing of the name.  The
  rewrite does hand the request on whenever the inbound path is not empty, or no raw path
  is involved.
\<close>

theorem director_authorization:
  "(\<forall>out. director esc target token req = Some out \<longrightarrow>
      Header out ''Authorization'' = Some [''Token '' @ token] \<and>
      (canonicalKeys (Header req) \<longrightarrow>
         (\<forall>k. equalFold k ''Authorization'' \<and> k \<noteq> ''Authorization'' \<longrightarrow> Header out k = None))) \<and>
   (Path (URL req) \<noteq> [] \<or> (RawPath target = [] \<and> RawPath (URL req) = []) \<longrightarrow>
      director esc target token req \<noteq> None)"
proof -
  have "Header out k = None"
    if "director esc target token req = Some out" "canonicalKeys (Header req)"
      "equalFold k ''Authorization''" "k \<noteq> ''Authorization''" for out k
  proof -
    from equalFold_length [OF that(3)] have "k \<noteq> ''Accept''"
      by auto
    with canonical_other_casing [OF that(2,3,4)] that(4) show ?thesis
      by (simp add: director_header [OF that(1)])
  qed
  with director_returns [of req target esc token] show ?thesis
    by (auto simp: director_header hop_not_set_keys)
qed

lemma canon_X_Trace: "CanonicalMIMEHeaderKey ''X-Trace'' = ''X-Trace''"
  by code_simp

lemma equalFold_authorization: "equalFold ''authorization'' ''Authorization''"
  by code_simp

theorem director_authorization_witness:
  "Header sampleRequest ''Authorization'' = Some [''Bearer client''] \<and>
   Path (URL sampleRequest) \<noteq> [] \<and> canonicalKeys (Header sampleRequest) \<and>
   equalFold ''authorization'' ''Authorization'' \<and>
   (\<exists>out. director Path baseTarget ''s3cret'' sampleRequest = Some out \<and>
      Header out ''Authorization'' = Some [''Token s3cret''] \<and>
      Header out ''authorization'' = None)"
proof -
  have c: "canonicalKeys (Header sampleRequest)"
    by (simp add: sampleRequest_def canonicalKeys_def canon_set_keys canon_hopHeaders
        canon_X_Trace)
  have p: "Path (URL sampleRequest) \<noteq> []"
    and h: "Header sampleRequest ''Authorization'' = Some [''Bearer client'']"
    by (simp_all add: sampleRequest_def)
  from director_authorization [of Path baseTarget "''s3cret''" sampleRequest] p
  obtain out where out: "director Path baseTarget ''s3cret'' sampleRequest = Some out"
    by auto
  with director_authorization [of Path baseTarget "''s3cret''" sampleRequest] c
    equalFold_authorization
  have "Header out ''Authorization'' = Some [''Token s3cret'']"
    and "Header out ''authorization'' = None"
    by auto
  with c p h out equalFold_authorization show ?thesis
    by blast
qed

lemma singleJoiningSlash_origin:
  assumes "a = [] \<or> a = ''/''" and "HasPrefix b ''/''"
  shows "singleJoiningSlash a b = b"
proof -
  from assms(2) obtain t where "b = CHR ''/'' # t"
    by (cases b) (auto simp: HasPrefix_def)
  with assms(1) show ?thesis
    by (auto simp: singleJoiningSlash_def HasPrefix_def HasSuffix_def)
qed

text \<open>
  C2, as the code has it.  The rewrite leaves method and body alone and changes the URL
  as \<^verbatim>\<open>NewSingleHostReverseProxy\<close> documents: scheme and host become the target's, the
  target's base path is joined in front of the inbound path with a single slash, and the
  target's query is put in front of the inbound query.  Path and query are therefore the
  inbound ones exactly when the target carries no base path (or just a slash) and no
  query.  Of the headers only Authorization, Accept and the eight keys of the filter
  change.
\<close>

theorem director_preserves:
  assumes "director esc target token req = Some out"
  shows "Method out = Method req \<and> Body out = Body req \<and> RemoteAddr out = RemoteAddr req \<and>
    Scheme (URL out) = Scheme target \<and> Host (URL out) = Host target \<and> ReqHost out = Host target \<and>
    joinURLPath esc target ((URL req)\<lparr>Scheme := Scheme target, Host := Host target\<rparr>)
      = Some (Path (URL out), RawPath (URL out)) \<and>
    RawQuery (URL out) =
      (if RawQuery target = [] \<or> RawQuery (URL req) = [] then RawQuery target @ RawQuery (URL req)
       else RawQuery target @ ''&'' @ RawQuery (URL req)) \<and>
    (RawQuery target = [] \<longrightarrow> RawQuery (URL out) = RawQuery (URL req)) \<and>
    (RawPath target = [] \<and> RawPath (URL req) = [] \<longrightarrow>
       Path (URL out) = singleJoiningSlash (Path target) (Path (URL req)) \<and> RawPath (URL out) = []) \<and>
    ((Path target = [] \<or> Path target = ''/'') \<and> RawPath target = [] \<and> RawPath (URL req) = [] \<and>
       HasPrefix (Path (URL req)) ''/'' \<longrightarrow> Path (URL out) = Path (URL req)) \<and>
    (\<forall>k. k \<notin> set hopHeaders \<and> k \<noteq> ''Authorization'' \<and> k \<noteq> ''Accept'' \<longrightarrow>
       Header out k = Header req k)"
proof -
  from assms obtain r where r: "rewriteRequestURL esc req target = Some r"
    and out: "out = r\<lparr>ReqHost := Host target,
           Header := stripHopHeaders
             (((Header r)(''Authorization'' \<mapsto> [''Token '' @ token]))(''Accept'' \<mapsto> [''application/json'']))\<rparr>"
    by (rule director_Some)
  from r obtain p rp where
    j: "joinURLPath esc target ((URL req)\<lparr>Scheme := Scheme target, Host := Host target\<rparr>) = Some (p, rp)"
    and r': "r = req\<lparr>URL := (URL req)\<lparr>Scheme := Scheme target, Host := Host target, Path := p, RawPath := rp,
           RawQuery := (if RawQuery target = [] \<or> RawQuery (URL req) = []
                        then RawQuery target @ RawQuery (URL req)
                        else RawQuery target @ ''&'' @ RawQuery (URL req))\<rparr>\<rparr>"
    by (rule rewriteRequestURL_Some)
  have frame: "Method out = Method req" "Body out = Body req" "RemoteAddr out = RemoteAddr req"
    "Scheme (URL out) = Scheme target" "Host (URL out) = Host target" "ReqHost out = Host target"
    "Path (URL out) = p" "RawPath (URL out) = rp"
    by (simp_all add: out r')
  have query: "RawQuery (URL out) =
      (if RawQuery target = [] \<or> RawQuery (URL req) = [] then RawQuery target @ RawQuery (URL req)
       else RawQuery target @ ''&'' @ RawQuery (URL req))"
    by (simp add: out r')
  have plain: "p = singleJoiningSlash (Path target) (Path (URL req)) \<and> rp = []"
    if "RawPath target = []" "RawPath (URL req) = []"
    using j that by (simp add: joinURLPath_def)
  have same: "p = Path (URL req)"
    if "Path target = [] \<or> Path target = ''/''" "RawPath target = []" "RawPath (URL req) = []"
      "HasPrefix (Path (URL req)) ''/''"
    using plain [OF that(2,3)] singleJoiningSlash_origin [OF that(1,4)] by simp
  have hdr: "Header out k = Header req k"
    if "k \<notin> set hopHeaders" "k \<noteq> ''Authorization''" "k \<noteq> ''Accept''" for k
    using that by (simp add: director_header [OF assms])
  from j frame query plain same hdr show ?thesis
    by simp
qed

theorem director_preserves_witness:
  "\<exists>out. director Path originTarget ''s3cret'' sampleRequest = Some out \<and>
     Method out = ''POST'' \<and> Body out = ''{}'' \<and>
     Path (URL out) = ''/sites'' \<and> RawQuery (URL out) = ''limit=5'' \<and>
     Host (URL out) = ''api.mist.com'' \<and> Header out ''X-Trace'' = Some [''1'', ''2'']"
proof -
  have "director Path originTarget ''s3cret'' sampleRequest \<noteq> None"
    by (rule director_returns) (simp add: sampleRequest_def)
  then obtain out where out: "director Path originTarget ''s3cret'' sampleRequest = Some out"
    by auto
  have "''X-Trace'' \<notin> set hopHeaders"
    by (simp add: hopHeaders_def)
  with director_preserves [OF out] out show ?thesis
    by (auto simp: sampleRequest_def originTarget_def HasPrefix_def)
qed

text \<open>
  C2 as stated fails when the upstream base URL has a path: the inbound path \<open>/sites\<close>
  goes out as \<open>/api/v1/sites\<close>.
\<close>

theorem director_path_counterexample:
  "Path (URL sampleRequest) = ''/sites'' \<and> Path (URL sampleRequest) \<noteq> ''/health'' \<and>
   map_option (Path \<circ> URL) (director Path baseTarget ''s3cret'' sampleRequest) = Some ''/api/v1/sites''"
  by (simp add: director_def rewriteRequestURL_def joinURLPath_def singleJoiningSlash_def
      HasPrefix_def HasSuffix_def baseTarget_def sampleRequest_def Let_def)

section \<open>Properties of the remote address\<close>

lemma IndexByte_None: "IndexByte s c = None \<longleftrightarrow> c \<notin> set s"
  by (induction s) auto

lemma IndexByte_append: "c \<notin> set h \<Longrightarrow> IndexByte (h @ c # r) c = Some (length h)"
  by (induction h) auto

lemma IndexByte_Some:
  "IndexByte s c = Some i \<Longrightarrow> i < length s \<and> s ! i = c \<and> c \<notin> set (take i s)"
proof (induction s arbitrary: i)
  case Nil
  then show ?case by simp
next
  case (Cons x xs)
  show ?case
  proof (cases "x = c")
    case True
    with Cons.prems show ?thesis by simp
  next
    case False
    with Cons.prems obtain j where j: "IndexByte xs c = Some j" and i: "i = Suc j"
      by auto
    from Cons.IH [OF j] False i show ?thesis
      by simp
  qed
qed

lemma LastIndexByte_None: "LastIndexByte s c = None \<longleftrightarrow> c \<notin> set s"
  by (simp add: LastIndexByte_def IndexByte_None)

lemma LastIndexByte_append: "c \<notin> set r \<Longrightarrow> LastIndexByte (h @ c # r) c = Some (length h)"
  using IndexByte_append [of c "rev r" "rev h"]
  by (simp add: LastIndexByte_def)

lemma LastIndexByte_Some:
  assumes "LastIndexByte s c = Some i"
  shows "i < length s \<and> s ! i = c \<and> c \<notin> set (drop (Suc i) s)"
proof -
  from assms obtain j where j: "IndexByte (rev s) c = Some j" and i: "i = length s - 1 - j"
    by (auto simp: LastIndexByte_def)
  from IndexByte_Some [OF j] have jl: "j < length s" and c: "rev s ! j = c"
    and n: "c \<notin> set (take j (rev s))"
    by simp_all
  from jl i have il: "i < length s" and ji: "length s - Suc j = i" and "length s - j = Suc i"
    by simp_all
  with c n jl show ?thesis
    by (simp add: rev_nth take_rev)
qed

lemma SplitHostPort_plain:
  assumes "plainForm addr host port"
  shows "SplitHostPort addr = Inr (host, port)"
proof -
  from assms have a: "addr = host @ CHR '':'' # port" and h: "CHR '':'' \<notin> set host"
    and p: "CHR '':'' \<notin> set port" and b: "CHR ''['' \<notin> set addr" "CHR '']'' \<notin> set addr"
    by (simp_all add: plainForm_def)
  have i: "LastIndexByte addr (CHR '':'') = Some (length host)"
    unfolding a using p by (rule LastIndexByte_append)
  from b(1) a have hd: "hd addr \<noteq> CHR ''[''"
    by (cases host) auto
  have t: "take (length host) addr = host" "drop (length host + 1) addr = port"
    by (simp_all add: a)
  from i hd t h b show ?thesis
    by (simp add: SplitHostPort_def splitTail_def IndexByte_None Let_def)
qed

lemma SplitHostPort_bracket:
  assumes "bracketForm addr host port"
  shows "SplitHostPort addr = Inr (host, port)"
proof -
  from assms have a: "addr = (CHR ''['' # host) @ CHR '']'' # CHR '':'' # port"
    and a': "addr = (CHR ''['' # host @ '']'') @ CHR '':'' # port"
    and h: "CHR '']'' \<notin> set host" "CHR ''['' \<notin> set host"
    and p: "CHR '':'' \<notin> set port" "CHR ''['' \<notin> set port" "CHR '']'' \<notin> set port"
    by (simp_all add: bracketForm_def)
  have i: "LastIndexByte addr (CHR '':'') = Some (Suc (Suc (length host)))"
    using LastIndexByte_append [OF p(1), of "CHR ''['' # host @ '']''"] a' by simp
  have e: "IndexByte addr (CHR '']'') = Some (Suc (length host))"
    using IndexByte_append [of "CHR '']''" "CHR ''['' # host" "CHR '':'' # port"] h(1) a by simp
  have t: "take (length host) (drop 1 addr) = host" "drop (Suc (Suc (Suc (length host)))) addr = port"
    "drop 1 addr = host @ '']:'' @ port" "drop (Suc (Suc (length host))) addr = CHR '':'' # port"
    by (simp_all add: a)
  have hd: "hd addr = CHR ''[''" "length addr = Suc (Suc (Suc (length host + length port)))"
    by (simp_all add: a)
  from i e t hd h p show ?thesis
    by (simp add: SplitHostPort_def splitTail_def IndexByte_None Let_def)
qed

lemma SplitHostPort_Inr:
  assumes "SplitHostPort addr = Inr (host, port)"
  shows "plainForm addr host port \<or> bracketForm addr host port"
proof -
  from assms obtain i where i: "LastIndexByte addr (CHR '':'') = Some i"
    by (auto simp: SplitHostPort_def split: option.splits)
  from LastIndexByte_Some [OF i] have il: "i < length addr" and ic: "addr ! i = CHR '':''"
    and np: "CHR '':'' \<notin> set (drop (Suc i) addr)"
    by simp_all
  from il ic have di: "drop i addr = CHR '':'' # drop (Suc i) addr"
    by (simp add: Cons_nth_drop_Suc [symmetric])
  show ?thesis
  proof (cases "hd addr = CHR ''[''")
    case False
    with assms i have nh: "CHR '':'' \<notin> set (take i addr)"
      and tl: "splitTail addr (take i addr) 0 0 i = Inr (host, port)"
      by (auto simp: SplitHostPort_def Let_def IndexByte_None split: if_splits)
    from tl have hp: "host = take i addr" "port = drop (Suc i) addr"
      and nb: "CHR ''['' \<notin> set addr" "CHR '']'' \<notin> set addr"
      by (auto simp: splitTail_def IndexByte_None split: if_splits)
    have "addr = take i addr @ drop i addr"
      by simp
    with di hp have dec: "addr = host @ CHR '':'' # port"
      by simp
    from arg_cong [OF dec, of set] nb
    have "CHR ''['' \<notin> set host \<and> CHR ''['' \<notin> set port \<and>
        CHR '']'' \<notin> set host \<and> CHR '']'' \<notin> set port"
      by simp
    moreover from nh np hp have "CHR '':'' \<notin> set host \<and> CHR '':'' \<notin> set port"
      by simp
    ultimately have "plainForm addr host port"
      using dec by (simp add: plainForm_def)
    then show ?thesis ..
  next
    case True
    with assms i obtain e where e: "IndexByte addr (CHR '']'') = Some e"
      and ei: "i = Suc e"
      and tl: "splitTail addr (take (e - 1) (drop 1 addr)) 1 (e + 1) i = Inr (host, port)"
      by (auto simp: SplitHostPort_def Let_def split: if_splits option.splits)
    from IndexByte_Some [OF e] have el: "e < length addr" and ec: "addr ! e = CHR '']''"
      and ne: "CHR '']'' \<notin> set (take e addr)"
      by simp_all
    from el ec have de: "drop e addr = CHR '']'' # drop (Suc e) addr"
      by (simp add: Cons_nth_drop_Suc [symmetric])
    from tl have host: "host = take (e - 1) (drop 1 addr)" and port: "port = drop (Suc i) addr"
      and nb: "CHR ''['' \<notin> set (drop 1 addr)" "CHR '']'' \<notin> set (drop (Suc e) addr)"
      by (auto simp: splitTail_def IndexByte_None split: if_splits)
    from il True obtain r where r: "addr = CHR ''['' # r"
      by (cases addr) auto
    from r ec obtain e' where e': "e = Suc e'"
      by (cases e) auto
    have te: "take e addr = CHR ''['' # host"
      by (simp add: host r e')
    have "addr = take e addr @ drop e addr"
      by simp
    with te de di ei port have dec: "addr = CHR ''['' # host @ CHR '']'' # CHR '':'' # port"
      by simp
    from arg_cong [OF dec, of "\<lambda>s. set (drop 1 s)"] nb(1)
    have "CHR ''['' \<notin> set host \<and> CHR ''['' \<notin> set port"
      by simp
    moreover from nb(2) di ei port have "CHR '']'' \<notin> set port"
      by simp
    moreover from ne te have "CHR '']'' \<notin> set host"
      by simp
    moreover from np port have "CHR '':'' \<notin> set port"
      by simp
    ultimately have "bracketForm addr host port"
      using dec by (simp add: bracketForm_def)
    then show ?thesis ..
  qed
qed


text \<open>
  C7.  The remote address of the log record is computed by a total function: for an
  address of either \<open>host:port\<close> shape it is the host, for every other string it is the
  string itself.  The error of \<^verbatim>\<open>SplitHostPort\<close> is consumed there and never returned.
\<close>

theorem remoteIP_total:
  "(plainForm addr host port \<or> bracketForm addr host port \<longrightarrow> remoteIP addr = host) \<and>
   ((\<forall>h p. \<not> plainForm addr h p \<and> \<not> bracketForm addr h p) \<longrightarrow> remoteIP addr = addr)"
proof -
  have "remoteIP addr = host" if "plainForm addr host port \<or> bracketForm addr host port"
    using that SplitHostPort_plain [of addr host port] SplitHostPort_bracket [of addr host port]
    by (auto simp: remoteIP_def)
  moreover have "remoteIP addr = addr" if "\<forall>h p. \<not> plainForm addr h p \<and> \<not> bracketForm addr h p"
  proof (cases "SplitHostPort addr")
    case (Inl e)
    then show ?thesis
      by (simp add: remoteIP_def)
  next
    case (Inr hp)
    then obtain h p where "SplitHostPort addr = Inr (h, p)"
      by (cases hp) auto
    from SplitHostPort_Inr [OF this] that show ?thesis
      by blast
  qed
  ultimately show ?thesis
    by blast
qed

theorem remoteIP_total_witness:
  "plainForm ''192.0.2.7:51234'' ''192.0.2.7'' ''51234'' \<and> remoteIP ''192.0.2.7:51234'' = ''192.0.2.7'' \<and>
   bracketForm ''[::1]:80'' ''::1'' ''80'' \<and> remoteIP ''[::1]:80'' = ''::1'' \<and>
   (\<forall>h p. \<not> plainForm ''@'' h p \<and> \<not> bracketForm ''@'' h p) \<and> remoteIP ''@'' = ''@''"
proof -
  have a: "plainForm ''192.0.2.7:51234'' ''192.0.2.7'' ''51234''"
    by (simp add: plainForm_def)
  have b: "bracketForm ''[::1]:80'' ''::1'' ''80''"
    by (simp add: bracketForm_def)
  have c: "\<forall>h p. \<not> plainForm ''@'' h p \<and> \<not> bracketForm ''@'' h p"
    by (auto simp: plainForm_def bracketForm_def Cons_eq_append_conv)
  from a b c remoteIP_total [of "''192.0.2.7:51234''" "''192.0.2.7''" "''51234''"]
    remoteIP_total [of "''[::1]:80''" "''::1''" "''80''"]
    remoteIP_total [of "''@''"]
  show ?thesis
    by blast
qed

section \<open>Properties of the configuration\<close>

declare TrimLeftSpace.simps [simp del] TrimRightSpace.simps [simp del]

lemma HasPrefix_iff: "HasPrefix s p \<longleftrightarrow> take (length p) s = p"
proof -
  have "length p \<le> length s" if "take (length p) s = p"
  proof -
    from that have "length (take (length p) s) = length p"
      by simp
    then show ?thesis
      by simp
  qed
  then show ?thesis
    by (auto simp: HasPrefix_def)
qed

lemma HasSuffix_iff: "HasSuffix s p \<longleftrightarrow> HasPrefix (rev s) (rev p)"
  by (auto simp: HasSuffix_def HasPrefix_def take_rev rev_drop [symmetric] drop_rev)

lemma spacePrefix_append_all:
  "\<forall>e \<in> set spaceEncodings. spacePrefix (e @ r) = Some e"
  by (simp add: spaceEncodings_def spacePrefix_def HasPrefix_iff)

lemma spaceSuffix_append_all:
  "\<forall>e \<in> set spaceEncodings. spaceSuffix (r @ e) = Some e"
  by (simp add: spaceEncodings_def spaceSuffix_def HasSuffix_iff HasPrefix_iff)

lemma spacePrefix_Some:
  assumes "spacePrefix s = Some e"
  shows "e \<in> set spaceEncodings \<and> s = e @ drop (length e) s"
proof -
  from assms have "e \<in> set spaceEncodings" and "HasPrefix s e"
    by (auto simp: spacePrefix_def find_Some_iff)
  then show ?thesis
    by (metis HasPrefix_iff append_take_drop_id)
qed

lemma spaceSuffix_Some:
  assumes "spaceSuffix s = Some e"
  shows "e \<in> set spaceEncodings \<and> s = take (length s - length e) s @ e"
proof -
  from assms have "e \<in> set spaceEncodings" and "HasSuffix s e"
    by (auto simp: spaceSuffix_def find_Some_iff)
  then show ?thesis
    by (metis HasSuffix_def append_take_drop_id)
qed

lemma whitespaceOnly_Nil: "whitespaceOnly []"
  unfolding whitespaceOnly_def by (rule exI [of _ "[]"]) simp

lemma whitespaceOnly_append:
  assumes "whitespaceOnly p" and "whitespaceOnly q"
  shows "whitespaceOnly (p @ q)"
proof -
  from assms obtain ps qs where "set ps \<subseteq> set spaceEncodings" "p = concat ps"
    "set qs \<subseteq> set spaceEncodings" "q = concat qs"
    by (auto simp: whitespaceOnly_def)
  then have "set (ps @ qs) \<subseteq> set spaceEncodings \<and> p @ q = concat (ps @ qs)"
    by simp
  then show ?thesis
    unfolding whitespaceOnly_def by blast
qed

lemma whitespaceOnly_enc: "e \<in> set spaceEncodings \<Longrightarrow> whitespaceOnly e"
  unfolding whitespaceOnly_def by (rule exI [of _ "[e]"]) simp

lemma TrimLeftSpace_concat:
  "set es \<subseteq> set spaceEncodings \<Longrightarrow> TrimLeftSpace (concat es @ r) = TrimLeftSpace r"
proof (induction es)
  case Nil
  then show ?case by simp
next
  case (Cons e es)
  then have "spacePrefix (e @ concat es @ r) = Some e"
    using spacePrefix_append_all by simp
  with Cons show ?case
    by (subst TrimLeftSpace.simps) simp
qed

lemma TrimLeftSpace_whitespaceOnly: "whitespaceOnly s \<Longrightarrow> TrimLeftSpace s = []"
proof -
  assume "whitespaceOnly s"
  then obtain es where "set es \<subseteq> set spaceEncodings" "s = concat es"
    by (auto simp: whitespaceOnly_def)
  with TrimLeftSpace_concat [of es "[]"] have "TrimLeftSpace s = TrimLeftSpace []"
    by simp
  also have "\<dots> = []"
    by (subst TrimLeftSpace.simps) (simp add: spacePrefix_def spaceEncodings_def HasPrefix_def)
  finally show ?thesis .
qed

lemma TrimRightSpace_Nil: "TrimRightSpace [] = []"
  by (subst TrimRightSpace.simps) (simp add: spaceSuffix_def spaceEncodings_def HasSuffix_def)

lemma TrimLeftSpace_split: "\<exists>p. whitespaceOnly p \<and> s = p @ TrimLeftSpace s"
proof (induction s rule: TrimLeftSpace.induct)
  case (1 s)
  show ?case
  proof (cases "spacePrefix s")
    case None
    then have "TrimLeftSpace s = s"
      by (subst TrimLeftSpace.simps) simp
    with whitespaceOnly_Nil show ?thesis
      by auto
  next
    case (Some e)
    then have t: "TrimLeftSpace s = TrimLeftSpace (drop (length e) s)"
      by (subst TrimLeftSpace.simps) simp
    from spacePrefix_Some [OF Some] have e: "e \<in> set spaceEncodings"
      and s: "s = e @ drop (length e) s"
      by simp_all
    from "1.IH" [OF Some] obtain p where p: "whitespaceOnly p"
      and d: "drop (length e) s = p @ TrimLeftSpace (drop (length e) s)"
      by blast
    from e p have "whitespaceOnly (e @ p)"
      by (simp add: whitespaceOnly_append whitespaceOnly_enc)
    moreover from s d t have "s = (e @ p) @ TrimLeftSpace s"
      by (metis append.assoc)
    ultimately show ?thesis
      by blast
  qed
qed

lemma TrimRightSpace_split: "\<exists>q. whitespaceOnly q \<and> s = TrimRightSpace s @ q"
proof (induction s rule: TrimRightSpace.induct)
  case (1 s)
  show ?case
  proof (cases "spaceSuffix s")
    case None
    then have "TrimRightSpace s = s"
      by (subst TrimRightSpace.simps) simp
    with whitespaceOnly_Nil show ?thesis
      by auto
  next
    case (Some e)
    then have t: "TrimRightSpace s = TrimRightSpace (take (length s - length e) s)"
      by (subst TrimRightSpace.simps) simp
    from spaceSuffix_Some [OF Some] have e: "e \<in> set spaceEncodings"
      and s: "s = take (length s - length e) s @ e"
      by simp_all
    from "1.IH" [OF Some] obtain q where q: "whitespaceOnly q"
      and d: "take (length s - length e) s = TrimRightSpace (take (length s - length e) s) @ q"
      by blast
    from e q have "whitespaceOnly (q @ e)"
      by (simp add: whitespaceOnly_append whitespaceOnly_enc)
    moreover from s d t have "s = TrimRightSpace s @ (q @ e)"
      by (metis append.assoc)
    ultimately show ?thesis
      by blast
  qed
qed

lemma TrimLeftSpace_no_prefix: "spacePrefix (TrimLeftSpace s) = None"
proof (induction s rule: TrimLeftSpace.induct)
  case (1 s)
  show ?case
  proof (cases "spacePrefix s")
    case None
    then show ?thesis
      by (subst TrimLeftSpace.simps) simp
  next
    case (Some e)
    with "1.IH" [OF Some] show ?thesis
      by (subst TrimLeftSpace.simps) simp
  qed
qed

lemma TrimRightSpace_no_suffix: "spaceSuffix (TrimRightSpace s) = None"
proof (induction s rule: TrimRightSpace.induct)
  case (1 s)
  show ?case
  proof (cases "spaceSuffix s")
    case None
    then show ?thesis
      by (subst TrimRightSpace.simps) simp
  next
    case (Some e)
    with "1.IH" [OF Some] show ?thesis
      by (subst TrimRightSpace.simps) simp
  qed
qed

lemma spacePrefix_take: "spacePrefix s = None \<Longrightarrow> spacePrefix (take n s) = None"
proof (rule ccontr)
  assume n: "spacePrefix s = None" and "spacePrefix (take n s) \<noteq> None"
  then obtain e where e: "spacePrefix (take n s) = Some e"
    by auto
  then have m: "e \<in> set spaceEncodings" and "HasPrefix (take n s) e"
    by (auto simp: spacePrefix_def find_Some_iff)
  then have "HasPrefix s e"
    by (auto simp: HasPrefix_def min_def split: if_splits)
  with m have "spacePrefix s \<noteq> None"
    by (auto simp: spacePrefix_def find_None_iff)
  with n show False
    by simp
qed

lemma TrimRightSpace_take: "\<exists>n. TrimRightSpace s = take n s"
proof (induction s rule: TrimRightSpace.induct)
  case (1 s)
  show ?case
  proof (cases "spaceSuffix s")
    case None
    then have "TrimRightSpace s = take (length s) s"
      by (subst TrimRightSpace.simps) simp
    then show ?thesis ..
  next
    case (Some e)
    from "1.IH" [OF Some] obtain n where
      "TrimRightSpace (take (length s - length e) s) = take n (take (length s - length e) s)"
      by blast
    with Some have "TrimRightSpace s = take (min n (length s - length e)) s"
      by (subst TrimRightSpace.simps) simp
    then show ?thesis ..
  qed
qed

lemma TrimSpace_trimmed:
  "spacePrefix (TrimSpace s) = None \<and> spaceSuffix (TrimSpace s) = None"
proof -
  obtain n where n: "TrimRightSpace (TrimLeftSpace s) = take n (TrimLeftSpace s)"
    using TrimRightSpace_take by blast
  have "spacePrefix (take n (TrimLeftSpace s)) = None"
    using TrimLeftSpace_no_prefix by (rule spacePrefix_take)
  with n have "spacePrefix (TrimSpace s) = None"
    by (simp add: TrimSpace_def)
  moreover have "spaceSuffix (TrimSpace s) = None"
    unfolding TrimSpace_def by (rule TrimRightSpace_no_suffix)
  ultimately show ?thesis ..
qed

lemma TrimSpace_split:
  "\<exists>p q. whitespaceOnly p \<and> whitespaceOnly q \<and> s = p @ TrimSpace s @ q"
proof -
  obtain p where p: "whitespaceOnly p" "s = p @ TrimLeftSpace s"
    using TrimLeftSpace_split by blast
  obtain q where q: "whitespaceOnly q" "TrimLeftSpace s = TrimRightSpace (TrimLeftSpace s) @ q"
    using TrimRightSpace_split by blast
  from p(2) q(2) have "s = p @ TrimSpace s @ q"
    by (simp add: TrimSpace_def)
  with p(1) q(1) show ?thesis
    by blast
qed

lemma TrimSpace_whitespaceOnly: "whitespaceOnly s \<Longrightarrow> TrimSpace s = []"
  by (simp add: TrimSpace_def TrimLeftSpace_whitespaceOnly TrimRightSpace_Nil)


lemma startup_Inr:
  assumes "startup parse getenv = Inr cfg"
  shows "cfgToken cfg = TrimSpace (getenv envToken) \<and>
     parse (TrimSpace (getenv envBaseURL)) = Inr (cfgTarget cfg) \<and>
     cfgListenAddr cfg =
       (if TrimSpace (getenv envListenAddr) = [] then defaultListenAddr
        else TrimSpace (getenv envListenAddr))"
  using assms
  by (auto simp: startup_def Let_def split: if_splits sum.splits)

text \<open>
  C9.  Every value read from the environment goes through \<^verbatim>\<open>strings.TrimSpace\<close> before
  it is used: a base URL or credential made of white space only ends the start-up, the
  values of a configuration that is built are the trimmed ones, a listen address made of
  white space only becomes the default \<open>:8080\<close>, and a trimmed value is the original
  without a white-space prefix and suffix and has no white space left at either end.
\<close>

theorem startup_trims:
  "(whitespaceOnly (getenv envBaseURL) \<or> whitespaceOnly (getenv envToken) \<longrightarrow>
      startup parse getenv = Inl MissingEnvironment) \<and>
   (\<forall>cfg. startup parse getenv = Inr cfg \<longrightarrow>
      cfgToken cfg = TrimSpace (getenv envToken) \<and>
      parse (TrimSpace (getenv envBaseURL)) = Inr (cfgTarget cfg) \<and>
      cfgListenAddr cfg =
        (if TrimSpace (getenv envListenAddr) = [] then defaultListenAddr
         else TrimSpace (getenv envListenAddr)) \<and>
      (whitespaceOnly (getenv envListenAddr) \<longrightarrow> cfgListenAddr cfg = '':8080'')) \<and>
   (\<exists>p q. whitespaceOnly p \<and> whitespaceOnly q \<and> s = p @ TrimSpace s @ q) \<and>
   spacePrefix (TrimSpace s) = None \<and> spaceSuffix (TrimSpace s) = None"
proof -
  have fatal: "startup parse getenv = Inl MissingEnvironment"
    if "whitespaceOnly (getenv envBaseURL) \<or> whitespaceOnly (getenv envToken)"
    using that by (auto simp: startup_def Let_def TrimSpace_whitespaceOnly)
  have built: "cfgListenAddr cfg = '':8080''"
    if "startup parse getenv = Inr cfg" "whitespaceOnly (getenv envListenAddr)" for cfg
    using startup_Inr [OF that(1)] that(2)
    by (simp add: TrimSpace_whitespaceOnly defaultListenAddr_def)
  from fatal built startup_Inr [of parse getenv] TrimSpace_split [of s] TrimSpace_trimmed [of s]
  show ?thesis
    by blast
qed

lemma whitespaceOnly_samples:
  "whitespaceOnly [CHR 0x20, CHR 0x09]"
  "whitespaceOnly [CHR 0x20, CHR 0xE3, CHR 0x80, CHR 0x80]"
proof -
  have "set [[CHR 0x20], [CHR 0x09]] \<subseteq> set spaceEncodings \<and>
      [CHR 0x20, CHR 0x09] = concat [[CHR 0x20], [CHR 0x09]]"
    by (simp add: spaceEncodings_def)
  then show "whitespaceOnly [CHR 0x20, CHR 0x09]"
    unfolding whitespaceOnly_def by (rule exI)
  have "set [[CHR 0x20], [CHR 0xE3, CHR 0x80, CHR 0x80]] \<subseteq> set spaceEncodings \<and>
      [CHR 0x20, CHR 0xE3, CHR 0x80, CHR 0x80] = concat [[CHR 0x20], [CHR 0xE3, CHR 0x80, CHR 0x80]]"
    by (simp add: spaceEncodings_def)
  then show "whitespaceOnly [CHR 0x20, CHR 0xE3, CHR 0x80, CHR 0x80]"
    unfolding whitespaceOnly_def by (rule exI)
qed

lemma TrimSpace_samples:
  "TrimSpace (paddedEnv envBaseURL) = ''https://api.mist.com''"
  "TrimSpace (paddedEnv envToken) = ''s3cret''"
  "TrimSpace (paddedEnv envListenAddr) = []"
  by code_simp+

lemma startup_paddedEnv:
  "startup sampleParse paddedEnv =
     Inr \<lparr>cfgTarget = originTarget, cfgToken = ''s3cret'', cfgListenAddr = '':8080''\<rparr>"
  by (simp add: startup_def Let_def TrimSpace_samples sampleParse_def defaultListenAddr_def)

theorem startup_trims_witness:
  "whitespaceOnly (blankTokenEnv envToken) \<and>
   startup sampleParse blankTokenEnv = Inl MissingEnvironment \<and>
   whitespaceOnly (paddedEnv envListenAddr) \<and>
   (\<exists>cfg. startup sampleParse paddedEnv = Inr cfg \<and> cfgToken cfg = ''s3cret'' \<and>
      cfgListenAddr cfg = '':8080'')"
proof -
  have a: "whitespaceOnly (blankTokenEnv envToken)"
    using whitespaceOnly_samples(1)
    by (simp add: blankTokenEnv_def envToken_def envBaseURL_def)
  have b: "whitespaceOnly (paddedEnv envListenAddr)"
    using whitespaceOnly_samples(2)
    by (simp add: paddedEnv_def envToken_def envBaseURL_def envListenAddr_def)
  from a startup_trims [of blankTokenEnv sampleParse "[]"]
  have c: "startup sampleParse blankTokenEnv = Inl MissingEnvironment"
    by blast
  from b startup_paddedEnv startup_trims [of paddedEnv sampleParse "[]"]
  have "cfgToken \<lparr>cfgTarget = originTarget, cfgToken = ''s3cret'', cfgListenAddr = '':8080''\<rparr>
      = TrimSpace (paddedEnv envToken)"
    by blast
  with a b c startup_paddedEnv show ?thesis
    by simp
qed


section \<open>Properties of the handlers\<close>


lemma cleanPath_health: "cleanPath ''/health'' = ''/health''"
  by code_simp

lemma muxRoute_health: "Path (URL req) = ''/health'' \<Longrightarrow> muxRoute req = ToHealth"
  by (simp add: muxRoute_def muxMatch_def cleanPath_health Let_def)

lemma serve_health:
  assumes "Path (URL req) = ''/health''"
  shows \<open>serve (mux answer healthHandler proxy) elapsed req =
    Some (\<lparr>reqMethod = Method req,
            handlerHeader = [''Content-Type'' \<mapsto> [''application/json'']], wroteHeader = True,
            status = 200, sentHeader = [''Content-Type'' \<mapsto> [''application/json'']],
            informational = [],
            written = (if Method req = ''HEAD'' then [] else ''{"status":"ok"}'')\<rparr>,
          [AccessLine (Method req) (URL req) 200 elapsed (remoteIP (RemoteAddr req))])\<close>
  using muxRoute_health [OF assms]
  by (simp add: serve_def loggingMiddleware_def mux_def healthHandler_def newResponseWriter_def
      response_Write_def response_WriteHeader_def finishRequest_def Header_Set_def editHeader_def
      bodyAllowedForStatus_def canon_Content_Type Let_def)

lemma health_not_forwarded:
  "Path (URL req) = ''/health'' \<Longrightarrow> forwarded (mux answer healthHandler proxy req) = []"
  by (simp add: mux_def muxRoute_health healthHandler_def forwarded_def)

text \<open>
  C5.  A GET request for \<open>/health\<close> is answered with status 200, the content type
  \<open>application/json\<close> and the body \<open>{"status":"ok"}\<close>, whatever the transport would
  do (it does not occur in the result), and the transport is not called.
\<close>

theorem health_get:
  assumes "Method req = ''GET''" and "Path (URL req) = ''/health''"
  shows \<open>serve (mux answer healthHandler (newMistProxy esc upstream deliver target token)) elapsed req =
    Some (\<lparr>reqMethod = ''GET'',
            handlerHeader = [''Content-Type'' \<mapsto> [''application/json'']], wroteHeader = True,
            status = 200, sentHeader = [''Content-Type'' \<mapsto> [''application/json'']],
            informational = [], written = ''{"status":"ok"}''\<rparr>,
          [AccessLine ''GET'' (URL req) 200 elapsed (remoteIP (RemoteAddr req))]) \<and>
    forwarded (mux answer healthHandler (newMistProxy esc upstream deliver target token) req) = []\<close>
  using assms serve_health [of req answer "newMistProxy esc upstream deliver target token" elapsed]
    health_not_forwarded [of req answer "newMistProxy esc upstream deliver target token"]
  by simp

theorem health_get_witness:
  \<open>Method healthRequest = ''GET'' \<and> Path (URL healthRequest) = ''/health'' \<and>
   serve (mux statusAnswer healthHandler
       (newMistProxy Path downUpstream plainDelivery baseTarget ''s3cret'')) 7 healthRequest =
    Some (\<lparr>reqMethod = ''GET'',
            handlerHeader = [''Content-Type'' \<mapsto> [''application/json'']], wroteHeader = True,
            status = 200, sentHeader = [''Content-Type'' \<mapsto> [''application/json'']],
            informational = [], written = ''{"status":"ok"}''\<rparr>,
          [AccessLine ''GET'' (URL healthRequest) 200 7 ''192.0.2.7''])\<close>
proof -
  have m: "Method healthRequest = ''GET''" and p: "Path (URL healthRequest) = ''/health''"
    by (simp_all add: healthRequest_def)
  have r: "remoteIP (RemoteAddr healthRequest) = ''192.0.2.7''"
    by code_simp
  from health_get [OF m p, of statusAnswer Path downUpstream plainDelivery baseTarget "''s3cret''" 7]
    m p r
  show ?thesis
    by simp
qed

text \<open>
  C10, as the code has it.  The health route does not look at the method: with any method
  \<open>m\<close> the handler run for \<open>/health\<close> is the health handler, and the response has
  status 200 and the JSON content type.  The body \<open>{"status":"ok"}\<close> reaches the client
  for every method but HEAD, for which the server sends no body.
\<close>

theorem health_any_method:
  assumes "Path (URL req) = ''/health''"
  shows \<open>serve (mux answer healthHandler (newMistProxy esc upstream deliver target token)) elapsed
      (req\<lparr>Method := m\<rparr>) =
    Some (\<lparr>reqMethod = m,
            handlerHeader = [''Content-Type'' \<mapsto> [''application/json'']], wroteHeader = True,
            status = 200, sentHeader = [''Content-Type'' \<mapsto> [''application/json'']],
            informational = [],
            written = (if m = ''HEAD'' then [] else ''{"status":"ok"}'')\<rparr>,
          [AccessLine m (URL req) 200 elapsed (remoteIP (RemoteAddr req))]) \<and>
    mux answer healthHandler (newMistProxy esc upstream deliver target token) (req\<lparr>Method := m\<rparr>) =
      healthHandler req\<close>
  using assms
    serve_health [of "req\<lparr>Method := m\<rparr>" answer "newMistProxy esc upstream deliver target token" elapsed]
    muxRoute_health [of "req\<lparr>Method := m\<rparr>"]
  by (simp add: mux_def healthHandler_def)

theorem health_any_method_witness:
  \<open>Path (URL healthRequest) = ''/health'' \<and>
   serve (mux statusAnswer healthHandler
       (newMistProxy Path downUpstream plainDelivery baseTarget ''s3cret'')) 7
      (healthRequest\<lparr>Method := ''DELETE''\<rparr>) =
    Some (\<lparr>reqMethod = ''DELETE'',
            handlerHeader = [''Content-Type'' \<mapsto> [''application/json'']], wroteHeader = True,
            status = 200, sentHeader = [''Content-Type'' \<mapsto> [''application/json'']],
            informational = [], written = ''{"status":"ok"}''\<rparr>,
          [AccessLine ''DELETE'' (URL healthRequest) 200 7 (remoteIP (RemoteAddr healthRequest))])\<close>
proof -
  have p: "Path (URL healthRequest) = ''/health''"
    by (simp add: healthRequest_def)
  from health_any_method [OF p, of statusAnswer Path downUpstream plainDelivery baseTarget
      "''s3cret''" 7 "''DELETE''"] p
  show ?thesis
    by simp
qed

text \<open>
  C10 as stated fails for HEAD: the response to \<open>HEAD /health\<close> has status 200 and an
  empty body.
\<close>

theorem health_head_counterexample:
  "Path (URL (healthRequest\<lparr>Method := ''HEAD''\<rparr>)) = ''/health'' \<and>
   map_option (status \<circ> fst)
     (serve (mux statusAnswer healthHandler
        (newMistProxy Path downUpstream plainDelivery baseTarget ''s3cret'')) 7
        (healthRequest\<lparr>Method := ''HEAD''\<rparr>)) = Some 200 \<and>
   map_option (written \<circ> fst)
     (serve (mux statusAnswer healthHandler
        (newMistProxy Path downUpstream plainDelivery baseTarget ''s3cret'')) 7
        (healthRequest\<lparr>Method := ''HEAD''\<rparr>)) = Some []"
proof -
  have p: "Path (URL (healthRequest\<lparr>Method := ''HEAD''\<rparr>)) = ''/health''"
    by (simp add: healthRequest_def)
  from serve_health [OF p] p show ?thesis
    by simp
qed


lemma sample_remoteIP: "remoteIP (RemoteAddr sampleRequest) = ''192.0.2.7''"
  by code_simp

lemma sample_route: "muxRoute sampleRequest = ToProxy"
  by code_simp











section \<open>Properties of the access log\<close>

lemma headerCodes_simps:
  "headerCodes [] = []"
  "headerCodes (Call (WriteHeader c) # es) = c # headerCodes es"
  "headerCodes (Call (Write b) # es) = headerCodes es"
  "headerCodes (Call (SetHeader k v) # es) = headerCodes es"
  "headerCodes (Call (DelHeader k) # es) = headerCodes es"
  "headerCodes (Call (AddHeader k v) # es) = headerCodes es"
  "headerCodes (Call ClearHeader # es) = headerCodes es"
  "headerCodes (LogPrintf l # es) = headerCodes es"
  "headerCodes (RoundTrip # es) = headerCodes es"
  "headerCodes (ResponseRewrite rs # es) = headerCodes es"
  "headerCodes (Panic # es) = headerCodes es"
  by (simp_all add: headerCodes_def List.map_filter_simps)

lemma printed_simps:
  "printed [] = []"
  "printed (Call op # es) = printed es"
  "printed (LogPrintf l # es) = l # printed es"
  "printed (RoundTrip # es) = printed es"
  "printed (ResponseRewrite rs # es) = printed es"
  "printed (Panic # es) = printed es"
  by (simp_all add: printed_def List.map_filter_simps)

lemma headerCodes_append: "headerCodes (xs @ ys) = headerCodes xs @ headerCodes ys"
  by (simp add: headerCodes_def List.map_filter_def)

lemma headerCodes_no_call: "\<forall>e \<in> set es. \<not> isHeaderCall e \<Longrightarrow> headerCodes es = []"
proof (induction es)
  case Nil
  then show ?case by (simp add: headerCodes_simps)
next
  case (Cons e es)
  then have "\<not> isHeaderCall e" and "headerCodes es = []"
    by simp_all
  then show ?case
    by (cases e rule: isHeaderCall.cases) (simp_all add: headerCodes_simps)
qed

lemma headerCodes_Cons_other: "\<not> isHeaderCall e \<Longrightarrow> headerCodes (e # es) = headerCodes es"
  by (cases e rule: isHeaderCall.cases) (simp_all add: headerCodes_simps)

lemma lrw_call_statusCode:
  assumes "lrw_call op l = Some l'"
  shows "statusCode l' = (case op of WriteHeader c \<Rightarrow> c | _ \<Rightarrow> statusCode l)"
  using assms
  by (cases op) (auto simp: lrw_WriteHeader_def editHeader_def Let_def split: option.splits)

lemma runHandler_log_status:
  "runHandler evs (l, lg) = Some (l', lg') \<Longrightarrow>
     statusCode l' = last (statusCode l # headerCodes evs) \<and> lg' = lg @ map Line (printed evs)"
proof (induction evs arbitrary: l lg)
  case Nil
  then show ?case
    by (simp add: headerCodes_simps printed_simps)
next
  case (Cons e evs)
  show ?case
  proof (cases e)
    case (Call op)
    with Cons.prems obtain l1 where c: "lrw_call op l = Some l1"
      and r: "runHandler evs (l1, lg) = Some (l', lg')"
      by (auto split: option.splits)
    from Cons.IH [OF r] lrw_call_statusCode [OF c] Call show ?thesis
      by (cases op) (simp_all add: headerCodes_simps printed_simps)
  next
    case (LogPrintf s)
    with Cons.prems have "runHandler evs (l, lg @ [Line s]) = Some (l', lg')"
      by simp
    from Cons.IH [OF this] LogPrintf show ?thesis
      by (simp add: headerCodes_simps printed_simps)
  next
    case RoundTrip
    with Cons.prems Cons.IH [of l lg] show ?thesis
      by (simp add: headerCodes_simps printed_simps)
  next
    case (ResponseRewrite r)
    with Cons.prems Cons.IH [of l lg] show ?thesis
      by (simp add: headerCodes_simps printed_simps)
  next
    case Panic
    with Cons.prems show ?thesis
      by simp
  qed
qed

lemma runHandler_append:
  "runHandler (xs @ ys) s =
     (case runHandler xs s of None \<Rightarrow> None | Some s' \<Rightarrow> runHandler ys s')"
proof (induction xs s rule: runHandler.induct)
  case (2 op es lrw lg)
  then show ?case
    by (cases "lrw_call op lrw") simp_all
qed simp_all

lemma lrw_call_sentStatus:
  assumes "lrw_call op l = Some l'" and "\<not> isHeaderCall (Call op)"
  shows "sentStatus l' = sentStatus l"
  using assms
  by (cases op)
    (auto simp: sentStatus_def finishRequest_def response_Write_def response_WriteHeader_def
      editHeader_def split: option.splits if_splits)

lemma runHandler_sentStatus:
  "headerCodes evs = [] \<Longrightarrow> runHandler evs (l, lg) = Some (l', lg') \<Longrightarrow>
     sentStatus l' = sentStatus l"
proof (induction evs arbitrary: l lg)
  case Nil
  then show ?case by simp
next
  case (Cons e evs)
  show ?case
  proof (cases e)
    case (Call op)
    with Cons.prems(1) have nh: "\<not> isHeaderCall (Call op)" and h: "headerCodes evs = []"
      by (cases op; simp add: headerCodes_simps)+
    from Call Cons.prems(2) obtain l1 where c: "lrw_call op l = Some l1"
      and r: "runHandler evs (l1, lg) = Some (l', lg')"
      by (auto split: option.splits)
    from Cons.IH [OF h r] lrw_call_sentStatus [OF c nh] show ?thesis
      by simp
  next
    case (LogPrintf s)
    with Cons.prems Cons.IH [of l "lg @ [Line s]"] show ?thesis
      by (simp add: headerCodes_simps)
  next
    case RoundTrip
    with Cons.prems Cons.IH [of l lg] show ?thesis
      by (simp add: headerCodes_simps)
  next
    case (ResponseRewrite r)
    with Cons.prems Cons.IH [of l lg] show ?thesis
      by (simp add: headerCodes_simps)
  next
    case Panic
    with Cons.prems show ?thesis
      by simp
  qed
qed

lemma lrw_call_wroteHeader:
  assumes "lrw_call op l = Some l'" and "\<not> isHeaderCall (Call op)" and "\<not> isBodyWrite (Call op)"
  shows "wroteHeader (ResponseWriter l') = wroteHeader (ResponseWriter l)"
  using assms by (cases op) (auto simp: editHeader_def)

lemma runHandler_header_open:
  "\<forall>e \<in> set evs. \<not> isHeaderCall e \<and> \<not> isBodyWrite e \<Longrightarrow>
   runHandler evs (l, lg) = Some (l', lg') \<Longrightarrow>
     wroteHeader (ResponseWriter l') = wroteHeader (ResponseWriter l)"
proof (induction evs arbitrary: l lg)
  case Nil
  then show ?case by simp
next
  case (Cons e evs)
  show ?case
  proof (cases e)
    case (Call op)
    with Cons.prems(1) have n: "\<not> isHeaderCall (Call op)" "\<not> isBodyWrite (Call op)"
      and h: "\<forall>e \<in> set evs. \<not> isHeaderCall e \<and> \<not> isBodyWrite e"
      by simp_all
    from Call Cons.prems(2) obtain l1 where c: "lrw_call op l = Some l1"
      and r: "runHandler evs (l1, lg) = Some (l', lg')"
      by (auto split: option.splits)
    from Cons.IH [OF h r] lrw_call_wroteHeader [OF c n] show ?thesis
      by simp
  next
    case (LogPrintf s)
    with Cons.prems Cons.IH [of l "lg @ [Line s]"] show ?thesis
      by simp
  next
    case RoundTrip
    with Cons.prems Cons.IH [of l lg] show ?thesis
      by simp
  next
    case (ResponseRewrite r)
    with Cons.prems Cons.IH [of l lg] show ?thesis
      by simp
  next
    case Panic
    with Cons.prems show ?thesis
      by simp
  qed
qed

lemma lrw_WriteHeader_final:
  assumes "lrw_call (WriteHeader c) l = Some l'" and "\<not> wroteHeader (ResponseWriter l)"
    and "\<not> informationalCode c"
  shows "sentStatus l' = c"
  using assms
  by (auto simp: lrw_WriteHeader_def response_WriteHeader_def sentStatus_def finishRequest_def
      informationalCode_def Let_def split: if_splits)

lemma oneFinalStatus_sent:
  assumes one: "oneFinalStatus evs"
    and run: "runHandler evs (l, lg) = Some (l', lg')"
    and fresh: "\<not> wroteHeader (ResponseWriter l)"
  shows "sentStatus l' = last (headerCodes evs)"
proof -
  from one obtain c where codes: "headerCodes evs = [c]" and fin: "\<not> informationalCode c"
    and nb: "\<not> list_ex isBodyWrite (takeWhile (\<lambda>e. \<not> isHeaderCall e) evs)"
    by (auto simp: oneFinalStatus_def split: list.splits)
  define pre where "pre = takeWhile (\<lambda>e. \<not> isHeaderCall e) evs"
  define rest where "rest = dropWhile (\<lambda>e. \<not> isHeaderCall e) evs"
  have evs: "evs = pre @ rest"
    by (simp add: pre_def rest_def)
  have pre: "\<forall>e \<in> set pre. \<not> isHeaderCall e \<and> \<not> isBodyWrite e"
    using nb by (auto simp: pre_def list_ex_iff dest: set_takeWhileD)
  then have hp: "headerCodes pre = []"
    by (simp add: headerCodes_no_call)
  with evs codes have hr: "headerCodes rest = [c]"
    by (simp add: headerCodes_append)
  then have "rest \<noteq> []"
    by (auto simp: headerCodes_simps)
  then obtain e post where rest: "rest = e # post"
    by (cases rest) auto
  have "isHeaderCall e"
    using rest hd_dropWhile [of "\<lambda>e. \<not> isHeaderCall e" evs] by (simp add: rest_def)
  then obtain c' where e: "e = Call (WriteHeader c')"
    by (cases e rule: isHeaderCall.cases) simp_all
  with hr rest have c': "c' = c" and hpost: "headerCodes post = []"
    by (simp_all add: headerCodes_simps)
  from run evs obtain s1 where r1: "runHandler pre (l, lg) = Some s1"
    and r2: "runHandler rest s1 = Some (l', lg')"
    by (auto simp: runHandler_append split: option.splits)
  obtain l1 lg1 where s1: "s1 = (l1, lg1)"
    by (cases s1)
  from runHandler_header_open [OF pre r1 [unfolded s1]] fresh
  have open1: "\<not> wroteHeader (ResponseWriter l1)"
    by simp
  from r2 rest e c' s1 obtain l2 where w: "lrw_call (WriteHeader c) l1 = Some l2"
    and r3: "runHandler post (l2, lg1) = Some (l', lg')"
    by (auto split: option.splits)
  from lrw_WriteHeader_final [OF w open1 fin] runHandler_sentStatus [OF hpost r3]
  have "sentStatus l' = c"
    by simp
  with codes show ?thesis
    by simp
qed

lemma lrw_call_informational:
  assumes "lrw_call op l = Some l'" and "\<not> isBodyWrite (Call op)"
    and "case op of WriteHeader c \<Rightarrow> informationalCode c | _ \<Rightarrow> True"
  shows "wroteHeader (ResponseWriter l') = wroteHeader (ResponseWriter l)"
  using assms
  by (cases op)
    (auto simp: editHeader_def lrw_WriteHeader_def response_WriteHeader_def informationalCode_def
      Let_def split: if_splits)

lemma runHandler_informational:
  "\<forall>e \<in> set evs. \<not> isBodyWrite e \<Longrightarrow> \<forall>c \<in> set (headerCodes evs). informationalCode c \<Longrightarrow>
   runHandler evs (l, lg) = Some (l', lg') \<Longrightarrow>
     wroteHeader (ResponseWriter l') = wroteHeader (ResponseWriter l)"
proof (induction evs arbitrary: l lg)
  case Nil
  then show ?case by simp
next
  case (Cons e evs)
  show ?case
  proof (cases e)
    case (Call op)
    with Cons.prems(1,2) have n: "\<not> isBodyWrite (Call op)"
      and i: "case op of WriteHeader c \<Rightarrow> informationalCode c | _ \<Rightarrow> True"
      and h: "\<forall>e \<in> set evs. \<not> isBodyWrite e" "\<forall>c \<in> set (headerCodes evs). informationalCode c"
      by (cases op; simp add: headerCodes_simps)+
    from Call Cons.prems(3) obtain l1 where c: "lrw_call op l = Some l1"
      and r: "runHandler evs (l1, lg) = Some (l', lg')"
      by (auto split: option.splits)
    from Cons.IH [OF h r] lrw_call_informational [OF c n i] show ?thesis
      by simp
  next
    case (LogPrintf s)
    with Cons.prems Cons.IH [of l "lg @ [Line s]"] show ?thesis
      by (simp add: headerCodes_simps)
  next
    case RoundTrip
    with Cons.prems Cons.IH [of l lg] show ?thesis
      by (simp add: headerCodes_simps)
  next
    case (ResponseRewrite r)
    with Cons.prems Cons.IH [of l lg] show ?thesis
      by (simp add: headerCodes_simps)
  next
    case Panic
    with Cons.prems show ?thesis
      by simp
  qed
qed

lemma final_after_informational:
  assumes pre: "\<forall>e \<in> set pre. \<not> isBodyWrite e" "\<forall>c \<in> set (headerCodes pre). informationalCode c"
    and one: "oneFinalStatus rest"
    and run: "runHandler (pre @ rest) (l, lg) = Some (l', lg')"
    and fresh: "\<not> wroteHeader (ResponseWriter l)"
  shows "sentStatus l' = last (200 # headerCodes (pre @ rest))"
proof -
  from run obtain s1 where r1: "runHandler pre (l, lg) = Some s1"
    and r2: "runHandler rest s1 = Some (l', lg')"
    by (auto simp: runHandler_append split: option.splits)
  obtain l1 lg1 where s1: "s1 = (l1, lg1)"
    by (cases s1)
  from runHandler_informational [OF pre r1 [unfolded s1]] fresh
  have "\<not> wroteHeader (ResponseWriter l1)"
    by simp
  from oneFinalStatus_sent [OF one r2 [unfolded s1] this]
  have "sentStatus l' = last (headerCodes rest)" .
  moreover from one have "headerCodes rest \<noteq> []"
    by (auto simp: oneFinalStatus_def split: list.splits)
  ultimately show ?thesis
    by (simp add: headerCodes_append)
qed

lemma lrw_call_returns:
  assumes "case op of WriteHeader c \<Rightarrow> 100 \<le> c \<and> c \<le> 999 | _ \<Rightarrow> True"
  shows "lrw_call op l \<noteq> None"
  using assms
  by (cases op)
    (auto simp: lrw_WriteHeader_def response_WriteHeader_def response_Write_def Let_def
      split: option.splits)

lemma runHandler_returns:
  "Panic \<notin> set evs \<Longrightarrow> \<forall>c \<in> set (headerCodes evs). 100 \<le> c \<and> c \<le> 999 \<Longrightarrow>
     runHandler evs (l, lg) \<noteq> None"
proof (induction evs arbitrary: l lg)
  case Nil
  then show ?case by simp
next
  case (Cons e evs)
  show ?case
  proof (cases e)
    case (Call op)
    with Cons.prems(2) have "case op of WriteHeader c \<Rightarrow> 100 \<le> c \<and> c \<le> 999 | _ \<Rightarrow> True"
      and h: "\<forall>c \<in> set (headerCodes evs). 100 \<le> c \<and> c \<le> 999"
      by (cases op; simp add: headerCodes_simps)+
    then obtain l1 where "lrw_call op l = Some l1"
      using lrw_call_returns [of op l] by auto
    with Call Cons.IH [OF _ h, of l1 lg] Cons.prems(1) show ?thesis
      by simp
  next
    case (LogPrintf s)
    with Cons.prems Cons.IH [of l "lg @ [Line s]"] show ?thesis
      by (simp add: headerCodes_simps)
  next
    case RoundTrip
    with Cons.prems Cons.IH [of l lg] show ?thesis
      by (simp add: headerCodes_simps)
  next
    case (ResponseRewrite r)
    with Cons.prems Cons.IH [of l lg] show ?thesis
      by (simp add: headerCodes_simps)
  next
    case Panic
    with Cons.prems show ?thesis
      by simp
  qed
qed

lemma serve_Some:
  assumes "serve next elapsed req = Some (w, lg)"
  obtains l lg0 where
    "runHandler (next req) (\<lparr>ResponseWriter = newResponseWriter (Method req), statusCode = 200\<rparr>, [])
       = Some (l, lg0)"
    and "w = finishRequest (ResponseWriter l)"
    and "lg = lg0 @ [AccessLine (Method req) (URL req) (statusCode l) elapsed (remoteIP (RemoteAddr req))]"
  using assms
  by (auto simp: serve_def loggingMiddleware_def Let_def split: option.splits prod.splits)

lemma headerCodes_forward1xx: "headerCodes (concat (map forward1xx infos)) = map fst infos"
proof (induction infos)
  case Nil
  then show ?case
    by (simp add: headerCodes_simps)
next
  case (Cons info infos)
  have "headerCodes (map (\<lambda>(k, v). Call (AddHeader k v)) kvs) = []" for kvs
    by (induction kvs) (auto simp: headerCodes_simps)
  then have "headerCodes (forward1xx info) = [fst info]"
    by (simp add: forward1xx_def headerCodes_append headerCodes_simps)
  with Cons show ?case
    by (simp add: headerCodes_append)
qed

lemma forward1xx_no_body: "\<forall>e \<in> set (concat (map forward1xx infos)). \<not> isBodyWrite e"
  by (auto simp: forward1xx_def)

lemma oneFinalStatus_ErrorHandler: "oneFinalStatus (ErrorHandler err)"
  by (simp add: oneFinalStatus_def ErrorHandler_def http_Error_def StatusBadGateway_def
      headerCodes_simps informationalCode_def)

lemma oneFinalStatus_rewrite: "oneFinalStatus evs \<Longrightarrow> oneFinalStatus (ResponseRewrite r # evs)"
  by (auto simp: oneFinalStatus_def headerCodes_simps split: list.splits)

lemma program_sentStatus:
  assumes answer: "muxRoute req \<noteq> ToHealth \<and> muxRoute req \<noteq> ToProxy \<longrightarrow>
      oneFinalStatus (answer (muxRoute req) req)"
    and deliver: "\<forall>outreq infos res. director esc target token req = Some outreq \<and>
      upstream req outreq = (infos, Inr res) \<longrightarrow> oneFinalStatus (deliver (ModifyResponse res))"
    and infos: "\<forall>outreq infos result. director esc target token req = Some outreq \<and>
      upstream req outreq = (infos, result) \<longrightarrow> (\<forall>c \<in> set (map fst infos). informationalCode c)"
    and run: "runHandler (mux answer healthHandler (newMistProxy esc upstream deliver target token) req)
      (l, lg) = Some (l', lg')"
    and fresh: "\<not> wroteHeader (ResponseWriter l)"
  shows "sentStatus l' =
    last (200 # headerCodes (mux answer healthHandler (newMistProxy esc upstream deliver target token) req))"
proof -
  let ?H = "mux answer healthHandler (newMistProxy esc upstream deliver target token)"
  consider (health) "muxRoute req = ToHealth" | (proxy) "muxRoute req = ToProxy"
    | (own) "muxRoute req \<noteq> ToHealth" "muxRoute req \<noteq> ToProxy"
    by blast
  then show ?thesis
  proof cases
    case health
    then have evs: "?H req = healthHandler req"
      by (simp add: mux_def)
    have codes: "headerCodes (healthHandler req) = []"
      by (simp add: healthHandler_def headerCodes_simps)
    from runHandler_sentStatus [OF codes run [unfolded evs]] fresh codes evs show ?thesis
      by (simp add: sentStatus_def finishRequest_def)
  next
    case own
    then have evs: "?H req = answer (muxRoute req) req"
      by (cases "muxRoute req") (simp_all add: mux_def)
    from own answer have one: "oneFinalStatus (answer (muxRoute req) req)"
      by simp
    from final_after_informational [of "[]" "answer (muxRoute req) req" l lg l' lg'] one run fresh evs
    show ?thesis
      by (simp add: headerCodes_simps)
  next
    case proxy
    then have evs: "?H req = newMistProxy esc upstream deliver target token req"
      by (simp add: mux_def)
    show ?thesis
    proof (cases "director esc target token req")
      case None
      with run evs show ?thesis
        by (simp add: newMistProxy_def)
    next
      case (Some outreq)
      obtain infos result where up: "upstream req outreq = (infos, result)"
        by (cases "upstream req outreq")
      define tail where "tail = (case result of Inl err \<Rightarrow> ErrorHandler err
        | Inr res \<Rightarrow> ResponseRewrite (ModifyResponse res) # deliver (ModifyResponse res))"
      have shape: "?H req = (RoundTrip # concat (map forward1xx infos)) @ tail"
        by (simp add: evs newMistProxy_def Some up tail_def Let_def split: sum.splits)
      have one: "oneFinalStatus tail"
      proof (cases result)
        case (Inl err)
        then show ?thesis
          by (simp add: tail_def oneFinalStatus_ErrorHandler)
      next
        case (Inr res)
        with deliver Some up have "oneFinalStatus (deliver (ModifyResponse res))"
          by blast
        with Inr show ?thesis
          by (simp add: tail_def oneFinalStatus_rewrite)
      qed
      from infos Some up have inf: "\<forall>c \<in> set (map fst infos). informationalCode c"
        by blast
      have p1: "\<forall>e \<in> set (RoundTrip # concat (map forward1xx infos)). \<not> isBodyWrite e"
        using forward1xx_no_body [of infos] by simp
      have p2: "\<forall>c \<in> set (headerCodes (RoundTrip # concat (map forward1xx infos))). informationalCode c"
        using inf by (simp add: headerCodes_simps headerCodes_forward1xx)
      from final_after_informational [OF p1 p2 one run [unfolded shape] fresh] shape
      show ?thesis
        by simp
    qed
  qed
qed

text \<open>
  C6, as the code has it.  \<^verbatim>\<open>WriteHeader\<close> of the wrapper overwrites \<^verbatim>\<open>statusCode\<close> on
  every call, so the access line carries the status of the last \<^verbatim>\<open>WriteHeader\<close> call of
  the handler, and 200 when there was none.  For every request of this program whose
  handler returns, the log of the request is the handler's own lines followed by exactly
  one access line, and its status is the final status the client got; a handler that does
  not panic and writes codes in 100..999 returns.  The three premises say what the library
  does: an answer of the mux itself and the delivery of a response write one final status
  before any body byte, and the responses forwarded during the round trip are
  informational.
\<close>

theorem access_log_final_status:
  assumes "muxRoute req \<noteq> ToHealth \<and> muxRoute req \<noteq> ToProxy \<longrightarrow>
      oneFinalStatus (answer (muxRoute req) req)"
    and "\<forall>outreq infos res. director esc target token req = Some outreq \<and>
      upstream req outreq = (infos, Inr res) \<longrightarrow> oneFinalStatus (deliver (ModifyResponse res))"
    and "\<forall>outreq infos result. director esc target token req = Some outreq \<and>
      upstream req outreq = (infos, result) \<longrightarrow> (\<forall>c \<in> set (map fst infos). informationalCode c)"
  shows "(\<forall>w lg.
      serve (mux answer healthHandler (newMistProxy esc upstream deliver target token)) elapsed req
        = Some (w, lg) \<longrightarrow>
      lg = map Line (printed (mux answer healthHandler
             (newMistProxy esc upstream deliver target token) req)) @
           [AccessLine (Method req) (URL req) (status w) elapsed (remoteIP (RemoteAddr req))] \<and>
      status w = last (200 # headerCodes (mux answer healthHandler
             (newMistProxy esc upstream deliver target token) req))) \<and>
   (Panic \<notin> set (mux answer healthHandler (newMistProxy esc upstream deliver target token) req) \<and>
    (\<forall>c \<in> set (headerCodes (mux answer healthHandler
         (newMistProxy esc upstream deliver target token) req)). 100 \<le> c \<and> c \<le> 999) \<longrightarrow>
      serve (mux answer healthHandler (newMistProxy esc upstream deliver target token)) elapsed req
        \<noteq> None)"
proof -
  let ?H = "mux answer healthHandler (newMistProxy esc upstream deliver target token)"
  let ?l = "\<lparr>ResponseWriter = newResponseWriter (Method req), statusCode = 200\<rparr>"
  have a: "lg = map Line (printed (?H req)) @
           [AccessLine (Method req) (URL req) (status w) elapsed (remoteIP (RemoteAddr req))] \<and>
      status w = last (200 # headerCodes (?H req))"
    if "serve ?H elapsed req = Some (w, lg)" for w lg
  proof -
    from that obtain l lg0 where run: "runHandler (?H req) (?l, []) = Some (l, lg0)"
      and w: "w = finishRequest (ResponseWriter l)"
      and lg: "lg = lg0 @ [AccessLine (Method req) (URL req) (statusCode l) elapsed (remoteIP (RemoteAddr req))]"
      by (rule serve_Some)
    have fresh: "\<not> wroteHeader (ResponseWriter ?l)"
      by (simp add: newResponseWriter_def)
    from program_sentStatus [OF assms run fresh] w
    have sent: "status w = last (200 # headerCodes (?H req))"
      by (simp add: sentStatus_def)
    from runHandler_log_status [OF run]
    have "statusCode l = last (200 # headerCodes (?H req))" and "lg0 = map Line (printed (?H req))"
      by simp_all
    with lg sent show ?thesis
      by simp
  qed
  have b: "serve ?H elapsed req \<noteq> None"
    if "Panic \<notin> set (?H req)" "\<forall>c \<in> set (headerCodes (?H req)). 100 \<le> c \<and> c \<le> 999"
    using runHandler_returns [OF that, of ?l "[]"]
    by (auto simp: serve_def loggingMiddleware_def Let_def split: option.splits)
  from a b show ?thesis
    by blast
qed


lemma earlyHints_events:
  assumes "director Path baseTarget ''s3cret'' sampleRequest = Some outreq"
  shows "mux statusAnswer healthHandler
       (newMistProxy Path earlyHintsUpstream plainDelivery baseTarget ''s3cret'') sampleRequest =
     [RoundTrip, Call (AddHeader ''Link'' ''</app.css>; rel=preload''), Call (WriteHeader 103),
      Call ClearHeader,
      ResponseRewrite \<lparr>StatusCode = 200, RespHeader = stripHopHeaders Map.empty, RespBody = ''[]''\<rparr>,
      Call (WriteHeader 200), Call (Write ''[]'')]"
  using assms
  by (simp add: mux_def sample_route newMistProxy_def earlyHintsUpstream_def forward1xx_def
      ModifyResponse_def plainDelivery_def Let_def)

lemma earlyHints_codes:
  "headerCodes (mux statusAnswer healthHandler
     (newMistProxy Path earlyHintsUpstream plainDelivery baseTarget ''s3cret'') sampleRequest) =
   [103, 200]"
proof -
  have "director Path baseTarget ''s3cret'' sampleRequest \<noteq> None"
    by (rule director_returns) (simp add: sampleRequest_def)
  then obtain outreq where "director Path baseTarget ''s3cret'' sampleRequest = Some outreq"
    by auto
  then show ?thesis
    by (simp add: earlyHints_events headerCodes_simps)
qed

lemma earlyHints_serve:
  "map_option snd (serve (mux statusAnswer healthHandler
     (newMistProxy Path earlyHintsUpstream plainDelivery baseTarget ''s3cret'')) 7 sampleRequest) =
   Some [AccessLine ''POST'' (URL sampleRequest) 200 7 ''192.0.2.7'']"
proof -
  have "director Path baseTarget ''s3cret'' sampleRequest \<noteq> None"
    by (rule director_returns) (simp add: sampleRequest_def)
  then obtain outreq where d: "director Path baseTarget ''s3cret'' sampleRequest = Some outreq"
    by auto
  have m: "Method sampleRequest = ''POST''"
    by (simp add: sampleRequest_def)
  show ?thesis
    by (simp add: serve_def loggingMiddleware_def earlyHints_events [OF d] newResponseWriter_def
        lrw_WriteHeader_def response_WriteHeader_def response_Write_def editHeader_def
        bodyAllowedForStatus_def finishRequest_def sample_remoteIP m Let_def)
qed

text \<open>
  C6 as stated fails when the upstream sends Early Hints: the first status the handler
  writes is 103, and the access line carries the final status 200.
\<close>

theorem access_log_first_status_counterexample:
  "headerCodes (mux statusAnswer healthHandler
     (newMistProxy Path earlyHintsUpstream plainDelivery baseTarget ''s3cret'') sampleRequest) =
     [103, 200] \<and>
   map_option snd (serve (mux statusAnswer healthHandler
     (newMistProxy Path earlyHintsUpstream plainDelivery baseTarget ''s3cret'')) 7 sampleRequest) =
     Some [AccessLine ''POST'' (URL sampleRequest) 200 7 ''192.0.2.7'']"
  using earlyHints_codes earlyHints_serve by simp

lemma unclean_route: "muxRoute uncleanRequest = Redirect ''/sites/x''"
  by code_simp

theorem access_log_final_status_witness:
  "muxRoute uncleanRequest = Redirect ''/sites/x'' \<and>
   oneFinalStatus (statusAnswer (muxRoute uncleanRequest) uncleanRequest) \<and>
   (\<exists>w lg. serve (mux statusAnswer healthHandler
        (newMistProxy Path earlyHintsUpstream plainDelivery baseTarget ''s3cret'')) 7 uncleanRequest
        = Some (w, lg) \<and> status w = 301 \<and>
      lg = [AccessLine ''POST'' (URL uncleanRequest) 301 7 ''192.0.2.7'']) \<and>
   muxRoute sampleRequest = ToProxy \<and>
   (\<exists>w lg. serve (mux statusAnswer healthHandler
        (newMistProxy Path earlyHintsUpstream plainDelivery baseTarget ''s3cret'')) 7 sampleRequest
        = Some (w, lg) \<and> status w = 200 \<and> informational w = [103] \<and>
      lg = [AccessLine ''POST'' (URL sampleRequest) 200 7 ''192.0.2.7''])"
proof -
  let ?H = "mux statusAnswer healthHandler
        (newMistProxy Path earlyHintsUpstream plainDelivery baseTarget ''s3cret'')"
  have one: "oneFinalStatus (statusAnswer r req)" for r req
    by (cases r)
      (simp_all add: statusAnswer_def oneFinalStatus_def headerCodes_simps informationalCode_def)
  have del: "\<forall>outreq infos res. director Path baseTarget ''s3cret'' req = Some outreq \<and>
      earlyHintsUpstream req outreq = (infos, Inr res) \<longrightarrow>
      oneFinalStatus (plainDelivery (ModifyResponse res))" for req
    by (auto simp: earlyHintsUpstream_def plainDelivery_def ModifyResponse_def oneFinalStatus_def
        headerCodes_simps informationalCode_def)
  have inf: "\<forall>outreq infos result. director Path baseTarget ''s3cret'' req = Some outreq \<and>
      earlyHintsUpstream req outreq = (infos, result) \<longrightarrow>
      (\<forall>c \<in> set (map fst infos). informationalCode c)" for req
    by (auto simp: earlyHintsUpstream_def informationalCode_def)
  have ans: "muxRoute req \<noteq> ToHealth \<and> muxRoute req \<noteq> ToProxy \<longrightarrow>
      oneFinalStatus (statusAnswer (muxRoute req) req)" for req
    using one by simp
  note t1 = access_log_final_status [where req = uncleanRequest and answer = statusAnswer
      and esc = Path and target = baseTarget and token = "''s3cret''"
      and upstream = earlyHintsUpstream and deliver = plainDelivery and elapsed = 7,
      OF ans del inf]
  note t2 = access_log_final_status [where req = sampleRequest and answer = statusAnswer
      and esc = Path and target = baseTarget and token = "''s3cret''"
      and upstream = earlyHintsUpstream and deliver = plainDelivery and elapsed = 7,
      OF ans del inf]
  have evs1: "?H uncleanRequest = [Call (WriteHeader 301)]"
    by (simp add: mux_def unclean_route statusAnswer_def)
  then have c1: "Panic \<notin> set (?H uncleanRequest)" "headerCodes (?H uncleanRequest) = [301]"
    "printed (?H uncleanRequest) = []"
    by (simp_all add: headerCodes_simps printed_simps)
  with t1 have "serve ?H 7 uncleanRequest \<noteq> None"
    by simp
  then obtain w1 lg1 where s1: "serve ?H 7 uncleanRequest = Some (w1, lg1)"
    by auto
  have ur: "Method uncleanRequest = ''POST''" "remoteIP (RemoteAddr uncleanRequest) = ''192.0.2.7''"
    using sample_remoteIP by (simp_all add: uncleanRequest_def sampleRequest_def)
  from t1 s1 c1 ur have r1: "status w1 = 301"
    "lg1 = [AccessLine ''POST'' (URL uncleanRequest) 301 7 ''192.0.2.7'']"
    by simp_all
  have "director Path baseTarget ''s3cret'' sampleRequest \<noteq> None"
    by (rule director_returns) (simp add: sampleRequest_def)
  then obtain outreq where d: "director Path baseTarget ''s3cret'' sampleRequest = Some outreq"
    by auto
  have c2: "Panic \<notin> set (?H sampleRequest)" "headerCodes (?H sampleRequest) = [103, 200]"
    "printed (?H sampleRequest) = []"
    by (simp_all add: earlyHints_events [OF d] headerCodes_simps printed_simps)
  with t2 have "serve ?H 7 sampleRequest \<noteq> None"
    by simp
  then obtain w2 lg2 where s2: "serve ?H 7 sampleRequest = Some (w2, lg2)"
    by auto
  have sr: "Method sampleRequest = ''POST''"
    by (simp add: sampleRequest_def)
  from t2 s2 c2 sr sample_remoteIP have r2: "status w2 = 200"
    "lg2 = [AccessLine ''POST'' (URL sampleRequest) 200 7 ''192.0.2.7'']"
    by simp_all
  have i2: "informational w2 = [103]"
    using s2
    by (auto simp: serve_def loggingMiddleware_def earlyHints_events [OF d] newResponseWriter_def
        lrw_WriteHeader_def response_WriteHeader_def response_Write_def editHeader_def
        bodyAllowedForStatus_def finishRequest_def sr Let_def)
  from unclean_route one s1 r1 sample_route s2 r2 i2 show ?thesis
    by blast
qed

end
